theory Spec2Isabelle
  imports Main "HOL-Library.Word" "HOL-Library.List_Lexorder"
begin

unbundle bit_operations_syntax

section \<open>Python values\<close>

text \<open>
  A Python \<open>str\<close> is a sequence of Unicode code points; it is modelled as the list of
  their numbers. A code point is below \<open>0x110000\<close>; the surrogates
  \<open>0xD800..0xDFFF\<close> can occur in a \<open>str\<close> but have no UTF-8 encoding.
  Comparison of two \<open>str\<close> is lexicographic on the code points, which is the order
  of \<open>HOL-Library.List_Lexorder\<close> on \<open>nat list\<close>.
\<close>

type_synonym pystr = "nat list"
type_synonym byte = "8 word"
type_synonym u32 = "32 word"

definition ascii :: "string \<Rightarrow> pystr" where
  "ascii s = map of_char s"

definition scalar :: "nat \<Rightarrow> bool" where
  "scalar c = (c < 0xD800 \<or> (0xE000 \<le> c \<and> c < 0x110000))"

definition valid_text :: "pystr \<Rightarrow> bool" where
  "valid_text s = list_all scalar s"

datatype error = UnicodeEncodeError | KeyError

text \<open>
  The values that occur in the parameter dictionaries. A \<open>float\<close> is carried by its
  \<open>repr\<close>, the only thing these programs read from one besides its truth value.
\<close>

datatype pyval = PStr pystr | PInt int | PBool bool | PNone | PFloat pystr

fun truthy :: "pyval \<Rightarrow> bool" where
  "truthy (PStr s) = (s \<noteq> [])"
| "truthy (PInt n) = (n \<noteq> 0)"
| "truthy (PBool b) = b"
| "truthy PNone = False"
| "truthy (PFloat r) = (r \<noteq> ascii ''0.0'' \<and> r \<noteq> ascii ''-0.0'')"

function digits10 :: "nat \<Rightarrow> pystr" where
  "digits10 n = (if n < 10 then [48 + n] else digits10 (n div 10) @ [48 + n mod 10])"
  by pat_completeness auto
termination
  by (relation "measure id") auto

declare digits10.simps [simp del]

text \<open>\<open>str(v)\<close>, which is also what an f-string field \<open>{v}\<close> renders.\<close>

fun py_str :: "pyval \<Rightarrow> pystr" where
  "py_str (PStr s) = s"
| "py_str (PInt n) = (if n < 0 then 45 # digits10 (nat (- n)) else digits10 (nat n))"
| "py_str (PBool b) = (if b then ascii ''True'' else ascii ''False'')"
| "py_str PNone = ascii ''None''"
| "py_str (PFloat r) = r"

text \<open>\<open>sep.join(parts)\<close>\<close>

fun join :: "pystr \<Rightarrow> pystr list \<Rightarrow> pystr" where
  "join sep [] = []"
| "join sep [x] = x"
| "join sep (x # y # ys) = x @ sep @ join sep (y # ys)"

subsection \<open>Dictionaries\<close>

text \<open>
  A \<open>dict\<close> keeps its entries in insertion order, which \<open>items()\<close>, \<open>keys()\<close> and
  \<open>urlencode\<close> follow: an association list whose keys are distinct.
\<close>

type_synonym dict = "(pystr \<times> pyval) list"

fun dict_set :: "dict \<Rightarrow> pystr \<Rightarrow> pyval \<Rightarrow> dict" where
  "dict_set [] k v = [(k, v)]"
| "dict_set ((k', v') # d) k v = (if k' = k then (k, v) # d else (k', v') # dict_set d k v)"

definition dict_del :: "dict \<Rightarrow> pystr \<Rightarrow> dict" where
  "dict_del d k = filter (\<lambda>(k', v). k' \<noteq> k) d"

definition dict_get :: "dict \<Rightarrow> pystr \<Rightarrow> error + pyval" where
  "dict_get d k = (case map_of d k of None \<Rightarrow> Inl KeyError | Some v \<Rightarrow> Inr v)"

fun traverse :: "('a \<Rightarrow> error + 'b) \<Rightarrow> 'a list \<Rightarrow> error + 'b list" where
  "traverse f [] = Inr []"
| "traverse f (x # xs) =
     (case f x of Inl e \<Rightarrow> Inl e
      | Inr y \<Rightarrow> (case traverse f xs of Inl e \<Rightarrow> Inl e | Inr ys \<Rightarrow> Inr (y # ys)))"

section \<open>UTF-8\<close>

text \<open>\<open>text.encode('utf-8')\<close>: strict, so a surrogate raises \<open>UnicodeEncodeError\<close>.\<close>

definition utf8_char :: "nat \<Rightarrow> error + byte list" where
  "utf8_char c =
     (if c < 0x80 then Inr [of_nat c]
      else if c < 0x800 then Inr [of_nat (0xC0 + c div 64), of_nat (0x80 + c mod 64)]
      else if 0xD800 \<le> c \<and> c < 0xE000 then Inl UnicodeEncodeError
      else if c < 0x10000 then
        Inr [of_nat (0xE0 + c div 4096), of_nat (0x80 + c div 64 mod 64), of_nat (0x80 + c mod 64)]
      else if c < 0x110000 then
        Inr [of_nat (0xF0 + c div 262144), of_nat (0x80 + c div 4096 mod 64),
             of_nat (0x80 + c div 64 mod 64), of_nat (0x80 + c mod 64)]
      else Inl UnicodeEncodeError)"

fun utf8_encode :: "pystr \<Rightarrow> error + byte list" where
  "utf8_encode [] = Inr []"
| "utf8_encode (c # cs) =
     (case utf8_char c of Inl e \<Rightarrow> Inl e
      | Inr bs \<Rightarrow> (case utf8_encode cs of Inl e \<Rightarrow> Inl e | Inr r \<Rightarrow> Inr (bs @ r)))"

text \<open>The bytes of the encoding, where there is one.\<close>

definition utf8 :: "pystr \<Rightarrow> byte list" where
  "utf8 s = (case utf8_encode s of Inl e \<Rightarrow> [] | Inr bs \<Rightarrow> bs)"

section \<open>MD5 (RFC 1321), as \<open>hashlib.md5(data).hexdigest()\<close> computes it\<close>

definition md5_s :: "nat list" where
  "md5_s = [7, 12, 17, 22, 7, 12, 17, 22, 7, 12, 17, 22, 7, 12, 17, 22,
            5, 9, 14, 20, 5, 9, 14, 20, 5, 9, 14, 20, 5, 9, 14, 20,
            4, 11, 16, 23, 4, 11, 16, 23, 4, 11, 16, 23, 4, 11, 16, 23,
            6, 10, 15, 21, 6, 10, 15, 21, 6, 10, 15, 21, 6, 10, 15, 21]"

definition md5_K :: "u32 list" where
  "md5_K =
    [0xd76aa478, 0xe8c7b756, 0x242070db, 0xc1bdceee, 0xf57c0faf, 0x4787c62a,
     0xa8304613, 0xfd469501, 0x698098d8, 0x8b44f7af, 0xffff5bb1, 0x895cd7be,
     0x6b901122, 0xfd987193, 0xa679438e, 0x49b40821, 0xf61e2562, 0xc040b340,
     0x265e5a51, 0xe9b6c7aa, 0xd62f105d, 0x02441453, 0xd8a1e681, 0xe7d3fbc8,
     0x21e1cde6, 0xc33707d6, 0xf4d50d87, 0x455a14ed, 0xa9e3e905, 0xfcefa3f8,
     0x676f02d9, 0x8d2a4c8a, 0xfffa3942, 0x8771f681, 0x6d9d6122, 0xfde5380c,
     0xa4beea44, 0x4bdecfa9, 0xf6bb4b60, 0xbebfbc70, 0x289b7ec6, 0xeaa127fa,
     0xd4ef3085, 0x04881d05, 0xd9d4d039, 0xe6db99e5, 0x1fa27cf8, 0xc4ac5665,
     0xf4292244, 0x432aff97, 0xab9423a7, 0xfc93a039, 0x655b59c3, 0x8f0ccc92,
     0xffeff47d, 0x85845dd1, 0x6fa87e4f, 0xfe2ce6e0, 0xa3014314, 0x4e0811a1,
     0xf7537e82, 0xbd3af235, 0x2ad7d2bb, 0xeb86d391]"

definition rotl32 :: "u32 \<Rightarrow> nat \<Rightarrow> u32" where
  "rotl32 x n = push_bit n x OR drop_bit (32 - n) x"

type_synonym md5_state = "u32 \<times> u32 \<times> u32 \<times> u32"

fun md5_step :: "u32 list \<Rightarrow> md5_state \<Rightarrow> nat \<Rightarrow> md5_state" where
  "md5_step M (A, B, C, D) i =
     (let (F, g) =
            (if i < 16 then ((B AND C) OR (NOT B AND D), i)
             else if i < 32 then ((D AND B) OR (NOT D AND C), (5 * i + 1) mod 16)
             else if i < 48 then (B XOR C XOR D, (3 * i + 5) mod 16)
             else (C XOR (B OR NOT D), (7 * i) mod 16));
          F' = F + A + md5_K ! i + M ! g
      in (D, B + rotl32 F' (md5_s ! i), B, C))"

definition le_word :: "byte list \<Rightarrow> u32" where
  "le_word bs = foldr (\<lambda>b w. ucast b OR push_bit 8 w) bs 0"

fun chunks :: "nat \<Rightarrow> 'a list \<Rightarrow> 'a list list" where
  "chunks n [] = []"
| "chunks n xs = (if n = 0 then [xs] else take n xs # chunks n (drop n xs))"

definition md5_block :: "md5_state \<Rightarrow> byte list \<Rightarrow> md5_state" where
  "md5_block st blk =
     (let M = map le_word (chunks 4 blk);
          (a0, b0, c0, d0) = st;
          (A, B, C, D) = foldl (md5_step M) st [0..<64]
      in (a0 + A, b0 + B, c0 + C, d0 + D))"

definition le_bytes :: "nat \<Rightarrow> 'a::len word \<Rightarrow> byte list" where
  "le_bytes n w = map (\<lambda>i. ucast (drop_bit (8 * i) w)) [0..<n]"

definition md5_pad :: "byte list \<Rightarrow> byte list" where
  "md5_pad bs = bs @ [0x80] @ replicate ((119 - length bs mod 64) mod 64) 0
                @ le_bytes 8 (8 * of_nat (length bs) :: 64 word)"

definition md5_digest :: "byte list \<Rightarrow> byte list" where
  "md5_digest bs =
     (let (a, b, c, d) = foldl md5_block (0x67452301, 0xefcdab89, 0x98badcfe, 0x10325476)
                               (chunks 64 (md5_pad bs))
      in concat (map (le_bytes 4) [a, b, c, d]))"

definition hex_lower :: "nat \<Rightarrow> nat" where
  "hex_lower n = (if n < 10 then 48 + n else 87 + n)"

definition hexdigest :: "byte list \<Rightarrow> pystr" where
  "hexdigest bs = concat (map (\<lambda>b. [hex_lower (unat b div 16), hex_lower (unat b mod 16)]) bs)"

definition lower_hex :: "nat \<Rightarrow> bool" where
  "lower_hex c = ((48 \<le> c \<and> c \<le> 57) \<or> (97 \<le> c \<and> c \<le> 102))"  \<comment> \<open>\<open>0-9\<close>, \<open>a-f\<close>\<close>

text \<open>
  \<^verbatim>\<open>def md5(text): return hashlib.md5(text.encode('utf-8')).hexdigest()\<close>
\<close>

definition md5 :: "pystr \<Rightarrow> error + pystr" where
  "md5 text = (case utf8_encode text of Inl e \<Rightarrow> Inl e
               | Inr bs \<Rightarrow> Inr (hexdigest (md5_digest bs)))"

section \<open>The signers\<close>

text \<open>
  \<open>generate_sign\<close> of \<^verbatim>\<open>generate_payment_url_v2.py\<close> and of \<^verbatim>\<open>test_payment.py\<close>
  (the same statements; they differ in what they print). Console output is not modelled.
\<close>

definition reserved :: "pystr list" where
  "reserved = [ascii ''sign'', ascii ''sign_type'']"

definition filtered :: "dict \<Rightarrow> dict" where
  "filtered params = filter (\<lambda>(k, v). truthy v \<and> k \<notin> set reserved) params"

definition sorted_keys :: "dict \<Rightarrow> pystr list" where
  "sorted_keys params = sort (map fst (filtered params))"

definition sign_str :: "dict \<Rightarrow> error + pystr" where
  "sign_str params =
     (case traverse (\<lambda>k. case dict_get (filtered params) k of Inl e \<Rightarrow> Inl e
                          | Inr v \<Rightarrow> Inr (k @ ascii ''='' @ py_str v)) (sorted_keys params) of
        Inl e \<Rightarrow> Inl e
      | Inr parts \<Rightarrow> Inr (join (ascii ''&'') parts))"

definition generate_sign :: "dict \<Rightarrow> pystr \<Rightarrow> error + pystr" where
  "generate_sign params key =
     (case sign_str params of Inl e \<Rightarrow> Inl e
      | Inr s \<Rightarrow> md5 (s @ key))"

text \<open>
  \<open>generate_sign\<close> of \<^verbatim>\<open>generate_payment_url.py\<close>. \<open>sorted(params.items())\<close> compares
  the pairs by key first; the keys of a dictionary differ, so the values are never compared.
\<close>

definition sign_str_v1 :: "dict \<Rightarrow> pystr" where
  "sign_str_v1 params =
     join (ascii ''&'') (map (\<lambda>(k, v). k @ ascii ''='' @ py_str v) (sort_key fst params))"

definition generate_sign_v1 :: "dict \<Rightarrow> pystr \<Rightarrow> error + pystr" where
  "generate_sign_v1 params key = md5 (sign_str_v1 params @ key)"

section \<open>\<open>urllib.parse\<close>: \<open>quote\<close>, \<open>quote_plus\<close>, \<open>urlencode\<close>\<close>

text \<open>
  The unreserved bytes that \<open>quote\<close> never escapes: letters, digits and \<open>_.-~\<close>
  (Python 3.7 and later).
\<close>

definition always_safe :: "byte \<Rightarrow> bool" where
  "always_safe b =
     (let c = unat b in
        (65 \<le> c \<and> c \<le> 90) \<or> (97 \<le> c \<and> c \<le> 122) \<or> (48 \<le> c \<and> c \<le> 57)
        \<or> c = 95 \<or> c = 46 \<or> c = 45 \<or> c = 126)"

definition hex_upper :: "nat \<Rightarrow> nat" where
  "hex_upper n = (if n < 10 then 48 + n else 55 + n)"

text \<open>One byte: itself when safe, \<^verbatim>\<open>'%{:02X}'.format(b)\<close> otherwise.\<close>

definition quote_byte :: "byte list \<Rightarrow> byte \<Rightarrow> pystr" where
  "quote_byte safe b =
     (if always_safe b \<or> b \<in> set safe then [unat b]
      else [37, hex_upper (unat b div 16), hex_upper (unat b mod 16)])"

definition quote_from_bytes :: "byte list \<Rightarrow> byte list \<Rightarrow> pystr" where
  "quote_from_bytes bs safe = concat (map (quote_byte safe) bs)"

text \<open>
  \<open>quote(string, safe)\<close> on a \<open>str\<close>: the empty string is returned as it is, any other
  is encoded as UTF-8 (strict) and escaped bytewise; of \<open>safe\<close> the ASCII characters count.
\<close>

definition quote :: "pystr \<Rightarrow> pystr \<Rightarrow> error + pystr" where
  "quote string safe =
     (if string = [] then Inr []
      else case utf8_encode string of Inl e \<Rightarrow> Inl e
           | Inr bs \<Rightarrow> Inr (quote_from_bytes bs (map of_nat (filter (\<lambda>c. c < 128) safe))))"

text \<open>\<open>quote_plus(string)\<close> with its default \<open>safe=''\<close>: a space becomes \<open>+\<close>.\<close>

definition quote_plus :: "pystr \<Rightarrow> error + pystr" where
  "quote_plus string =
     (if 32 \<notin> set string then quote string []
      else case quote string [32] of Inl e \<Rightarrow> Inl e
           | Inr q \<Rightarrow> Inr (map (\<lambda>c. if c = 32 then 43 else c) q))"

text \<open>
  \<open>urlencode(query)\<close> on a dictionary: each key and \<open>str\<close> of each value through
  \<open>quote_plus\<close>, the pairs as \<open>k=v\<close> joined by \<open>&\<close>, in the order of the dictionary.
\<close>

definition urlencode_pair :: "pystr \<times> pyval \<Rightarrow> error + pystr" where
  "urlencode_pair kv =
     (case quote_plus (fst kv) of Inl e \<Rightarrow> Inl e
      | Inr k \<Rightarrow> (case quote_plus (py_str (snd kv)) of Inl e \<Rightarrow> Inl e
                  | Inr v \<Rightarrow> Inr (k @ ascii ''='' @ v)))"

definition urlencode :: "dict \<Rightarrow> error + pystr" where
  "urlencode query =
     (case traverse urlencode_pair query of Inl e \<Rightarrow> Inl e
      | Inr l \<Rightarrow> Inr (join (ascii ''&'') l))"

text \<open>
  What \<open>quote_plus\<close> makes of one byte, and of a text: auxiliary, for stating results.
\<close>

definition qp_byte :: "byte \<Rightarrow> pystr" where
  "qp_byte b = (if b = 32 then [43] else quote_byte [] b)"

definition qp :: "pystr \<Rightarrow> pystr" where
  "qp s = concat (map qp_byte (utf8 s))"

definition query_of :: "dict \<Rightarrow> pystr" where
  "query_of p = join (ascii ''&'') (map (\<lambda>(k, v). qp k @ ascii ''='' @ qp (py_str v)) p)"

definition wf_dict :: "dict \<Rightarrow> bool" where
  "wf_dict p = list_all (\<lambda>(k, v). valid_text k \<and> valid_text (py_str v)) p"

section \<open>The URL builders\<close>

text \<open>
  \<open>generate_payment_url(base_url, pid, merchant_key, **kwargs)\<close> of
  \<^verbatim>\<open>generate_payment_url_v2.py\<close>. The keyword arguments are a map from their names;
  \<open>now\<close> is what \<open>int(time.time())\<close> reads from the clock.
\<close>

definition kwargs_get :: "(pystr \<rightharpoonup> pyval) \<Rightarrow> pystr \<Rightarrow> pyval \<Rightarrow> pyval" where
  "kwargs_get kwargs k d = (case kwargs k of None \<Rightarrow> d | Some v \<Rightarrow> v)"

definition default_params :: "int \<Rightarrow> pyval \<Rightarrow> (pystr \<rightharpoonup> pyval) \<Rightarrow> dict" where
  "default_params now pid kwargs =
     [(ascii ''pid'', pid),
      (ascii ''type'', kwargs_get kwargs (ascii ''type'') (PStr (ascii ''alipay''))),
      (ascii ''out_trade_no'',
         kwargs_get kwargs (ascii ''out_trade_no'') (PStr (ascii ''TEST'' @ py_str (PInt now)))),
      (ascii ''notify_url'',
         kwargs_get kwargs (ascii ''notify_url'') (PStr (ascii ''http://example.com/notify''))),
      (ascii ''return_url'',
         kwargs_get kwargs (ascii ''return_url'') (PStr (ascii ''http://example.com/return''))),
      (ascii ''name'', kwargs_get kwargs (ascii ''name'') (PStr [27979, 35797, 21830, 21697])),
      (ascii ''money'', PStr (py_str (kwargs_get kwargs (ascii ''money'') (PStr (ascii ''0.01''))))),
      (ascii ''sign_type'', PStr (ascii ''MD5''))]"

text \<open>The keyword arguments that the function reads, and their being encodable text.\<close>

definition order_fields :: "pystr list" where
  "order_fields = [ascii ''type'', ascii ''out_trade_no'', ascii ''notify_url'',
                   ascii ''return_url'', ascii ''name'', ascii ''money'', ascii ''sitename'']"

definition valid_kwargs :: "(pystr \<rightharpoonup> pyval) \<Rightarrow> bool" where
  "valid_kwargs kwargs =
     list_all (\<lambda>k. case kwargs k of None \<Rightarrow> True | Some v \<Rightarrow> valid_text (py_str v)) order_fields"

definition with_sitename :: "(pystr \<rightharpoonup> pyval) \<Rightarrow> dict \<Rightarrow> dict" where
  "with_sitename kwargs params =
     (case kwargs (ascii ''sitename'') of
        None \<Rightarrow> params
      | Some v \<Rightarrow> if truthy v then dict_set params (ascii ''sitename'') v else params)"

definition params_before_sign :: "int \<Rightarrow> pyval \<Rightarrow> (pystr \<rightharpoonup> pyval) \<Rightarrow> dict" where
  "params_before_sign now pid kwargs = with_sitename kwargs (default_params now pid kwargs)"

definition generate_payment_url ::
    "int \<Rightarrow> pystr \<Rightarrow> pyval \<Rightarrow> pystr \<Rightarrow> (pystr \<rightharpoonup> pyval) \<Rightarrow> error + pystr \<times> dict" where
  "generate_payment_url now base_url pid merchant_key kwargs =
     (let params = params_before_sign now pid kwargs
      in case generate_sign params merchant_key of Inl e \<Rightarrow> Inl e
         | Inr sign \<Rightarrow>
             (let params = dict_set params (ascii ''sign'') (PStr sign)
              in case urlencode params of Inl e \<Rightarrow> Inl e
                 | Inr query_string \<Rightarrow>
                     Inr (base_url @ ascii ''/submit?'' @ query_string, params)))"

text \<open>
  \<open>generate_payment_url(amount="0.01", product_name=...)\<close> of
  \<^verbatim>\<open>generate_payment_url.py\<close>, with its module constants; an argument left out is
  \<open>None\<close> here and takes its default.
\<close>

definition PID :: pystr where
  "PID = ascii ''1001003549245339''"

definition KEY :: pystr where
  "KEY = ascii ''cd5dcdcbef4da67b9f3a01b1e391ab86''"

definition BASE_URL :: pystr where
  "BASE_URL = ascii ''http://localhost:8080/submit''"

definition params_v1 :: "int \<Rightarrow> pyval option \<Rightarrow> pyval option \<Rightarrow> dict" where
  "params_v1 now amount product_name =
     [(ascii ''pid'', PStr PID),
      (ascii ''type'', PStr (ascii ''alipay'')),
      (ascii ''out_trade_no'', PStr (ascii ''TEST'' @ py_str (PInt now))),
      (ascii ''notify_url'', PStr (ascii ''http://example.com/notify'')),
      (ascii ''return_url'', PStr (ascii ''http://example.com/return'')),
      (ascii ''name'',
         (case product_name of None \<Rightarrow> PStr [27979, 35797, 21830, 21697] | Some v \<Rightarrow> v)),
      (ascii ''money'', (case amount of None \<Rightarrow> PStr (ascii ''0.01'') | Some v \<Rightarrow> v))]"

definition generate_payment_url_v1 ::
    "int \<Rightarrow> pyval option \<Rightarrow> pyval option \<Rightarrow> error + pystr \<times> dict" where
  "generate_payment_url_v1 now amount product_name =
     (let params = params_v1 now amount product_name
      in case generate_sign_v1 params KEY of Inl e \<Rightarrow> Inl e
         | Inr sign \<Rightarrow>
             (let params = dict_set (dict_set params (ascii ''sign'') (PStr sign))
                                    (ascii ''sign_type'') (PStr (ascii ''MD5''))
              in case urlencode params of Inl e \<Rightarrow> Inl e
                 | Inr query_string \<Rightarrow> Inr (BASE_URL @ ascii ''?'' @ query_string, params)))"

section \<open>The gateway's side of the round trip\<close>

text \<open>
  Modelled from the spec: the gateway that receives the URL is not among the sources. The
  spec has it re-parse the query string into key/value pairs, URL-decoding each, strip
  the reserved keys and the empty values, and sign what remains. The query string of a
  URL is what follows the first \<open>?\<close>, up to a \<open>#\<close>; pairs are separated by \<open>&\<close>, a key
  from its value by the first \<open>=\<close>; decoding turns \<open>+\<close> into a space and \<open>%XX\<close> into
  the byte \<open>XX\<close>, and reads the bytes as UTF-8.
\<close>

definition url_query :: "pystr \<Rightarrow> pystr" where
  "url_query url = drop 1 (dropWhile (\<lambda>c. c \<noteq> 63) (takeWhile (\<lambda>c. c \<noteq> 35) url))"

fun split_on :: "nat \<Rightarrow> pystr \<Rightarrow> pystr list" where
  "split_on sep [] = [[]]"
| "split_on sep (c # s) =
     (if c = sep then [] # split_on sep s
      else case split_on sep s of [] \<Rightarrow> [[c]] | x # xs \<Rightarrow> (c # x) # xs)"

definition hex_val :: "nat \<Rightarrow> nat option" where
  "hex_val c =
     (if 48 \<le> c \<and> c \<le> 57 then Some (c - 48)
      else if 65 \<le> c \<and> c \<le> 70 then Some (c - 55)
      else if 97 \<le> c \<and> c \<le> 102 then Some (c - 87)
      else None)"

fun percent_decode :: "pystr \<Rightarrow> byte list option" where
  "percent_decode [] = Some []"
| "percent_decode (c # s) =
     (if c = 37 then
        (case s of
           h # l # rest \<Rightarrow>
             (case (hex_val h, hex_val l) of
                (Some a, Some b) \<Rightarrow> map_option ((#) (of_nat (16 * a + b))) (percent_decode rest)
              | _ \<Rightarrow> None)
         | _ \<Rightarrow> None)
      else if c = 43 then map_option ((#) 32) (percent_decode s)
      else if c < 128 then map_option ((#) (of_nat c)) (percent_decode s)
      else None)"

definition is_cont :: "byte \<Rightarrow> bool" where
  "is_cont b = (128 \<le> unat b \<and> unat b < 192)"

fun utf8_decode :: "byte list \<Rightarrow> pystr option" where
  "utf8_decode [] = Some []"
| "utf8_decode (b # bs) =
     (if unat b < 128 then map_option ((#) (unat b)) (utf8_decode bs)
      else if 194 \<le> unat b \<and> unat b < 224 then
        (case bs of
           b1 # r \<Rightarrow>
             if is_cont b1
             then map_option ((#) ((unat b - 192) * 64 + (unat b1 - 128))) (utf8_decode r)
             else None
         | _ \<Rightarrow> None)
      else if 224 \<le> unat b \<and> unat b < 240 then
        (case bs of
           b1 # b2 # r \<Rightarrow>
             if is_cont b1 \<and> is_cont b2
                \<and> 2048 \<le> (unat b - 224) * 4096 + (unat b1 - 128) * 64 + (unat b2 - 128)
                \<and> scalar ((unat b - 224) * 4096 + (unat b1 - 128) * 64 + (unat b2 - 128))
             then map_option ((#) ((unat b - 224) * 4096 + (unat b1 - 128) * 64 + (unat b2 - 128)))
                    (utf8_decode r)
             else None
         | _ \<Rightarrow> None)
      else if 240 \<le> unat b \<and> unat b < 245 then
        (case bs of
           b1 # b2 # b3 # r \<Rightarrow>
             if is_cont b1 \<and> is_cont b2 \<and> is_cont b3
                \<and> 65536 \<le> (unat b - 240) * 262144 + (unat b1 - 128) * 4096
                              + (unat b2 - 128) * 64 + (unat b3 - 128)
                \<and> (unat b - 240) * 262144 + (unat b1 - 128) * 4096
                     + (unat b2 - 128) * 64 + (unat b3 - 128) < 1114112
             then map_option ((#) ((unat b - 240) * 262144 + (unat b1 - 128) * 4096
                                    + (unat b2 - 128) * 64 + (unat b3 - 128)))
                    (utf8_decode r)
             else None
         | _ \<Rightarrow> None)
      else None)"

definition url_decode :: "pystr \<Rightarrow> pystr option" where
  "url_decode s = (case percent_decode s of None \<Rightarrow> None | Some bs \<Rightarrow> utf8_decode bs)"

definition parse_pair :: "pystr \<Rightarrow> (pystr \<times> pystr) option" where
  "parse_pair nv =
     (case url_decode (takeWhile (\<lambda>c. c \<noteq> 61) nv) of
        None \<Rightarrow> None
      | Some k \<Rightarrow>
          (case url_decode (drop 1 (dropWhile (\<lambda>c. c \<noteq> 61) nv)) of
             None \<Rightarrow> None
           | Some v \<Rightarrow> Some (k, v)))"

fun traverse_option :: "('a \<Rightarrow> 'b option) \<Rightarrow> 'a list \<Rightarrow> 'b list option" where
  "traverse_option f [] = Some []"
| "traverse_option f (x # xs) =
     (case f x of None \<Rightarrow> None
      | Some y \<Rightarrow> (case traverse_option f xs of None \<Rightarrow> None | Some ys \<Rightarrow> Some (y # ys)))"

definition parse_query :: "pystr \<Rightarrow> (pystr \<times> pystr) list option" where
  "parse_query qs = traverse_option parse_pair (filter (\<lambda>nv. nv \<noteq> []) (split_on 38 qs))"

definition strip_reserved_empty :: "(pystr \<times> pystr) list \<Rightarrow> (pystr \<times> pystr) list" where
  "strip_reserved_empty pairs = filter (\<lambda>(k, v). k \<notin> set reserved \<and> v \<noteq> []) pairs"

definition as_params :: "(pystr \<times> pystr) list \<Rightarrow> dict" where
  "as_params pairs = map (\<lambda>(k, v). (k, PStr v)) pairs"

text \<open>
  A value enters the signature exactly when its text is not empty: every \<open>str\<close> does,
  and every other value but \<open>0\<close>, \<open>0.0\<close>, \<open>False\<close> and \<open>None\<close>.
\<close>

definition signable :: "pyval \<Rightarrow> bool" where
  "signable v = (truthy v \<longleftrightarrow> py_str v \<noteq> [])"

definition signable_kwargs :: "(pystr \<rightharpoonup> pyval) \<Rightarrow> bool" where
  "signable_kwargs kwargs =
     list_all (\<lambda>k. case kwargs k of None \<Rightarrow> True | Some v \<Rightarrow> signable v)
       [ascii ''type'', ascii ''out_trade_no'', ascii ''notify_url'', ascii ''return_url'',
        ascii ''name'', ascii ''sitename'']"

section \<open>The concrete scenario\<close>

definition example_P :: dict where
  "example_P =
     [(ascii ''pid'', PStr (ascii ''1001003549245339'')),
      (ascii ''type'', PStr (ascii ''alipay'')),
      (ascii ''out_trade_no'', PStr (ascii ''TEST1700000000'')),
      (ascii ''notify_url'', PStr (ascii ''http://example.com/notify'')),
      (ascii ''return_url'', PStr (ascii ''http://example.com/return'')),
      (ascii ''name'', PStr [27979, 35797, 21830, 21697]),
      (ascii ''money'', PStr (ascii ''0.01''))]"

definition example_K :: pystr where
  "example_K = ascii ''cd5dcdcbef4da67b9f3a01b1e391ab86''"

definition example_base :: pystr where
  "example_base =
     ascii ''money=0.01&name='' @ [27979, 35797, 21830, 21697]
     @ ascii ''&notify_url=http://example.com/notify&out_trade_no=TEST1700000000''
     @ ascii ''&pid=1001003549245339&return_url=http://example.com/return&type=alipay''"

definition example_bytes :: "byte list" where
  "example_bytes =
    [109, 111, 110, 101, 121, 61, 48, 46, 48, 49, 38, 110, 97, 109, 101, 61,
     230, 181, 139, 232, 175, 149, 229, 149, 134, 229, 147, 129, 38, 110, 111, 116,
     105, 102, 121, 95, 117, 114, 108, 61, 104, 116, 116, 112, 58, 47, 47, 101,
     120, 97, 109, 112, 108, 101, 46, 99, 111, 109, 47, 110, 111, 116, 105, 102,
     121, 38, 111, 117, 116, 95, 116, 114, 97, 100, 101, 95, 110, 111, 61, 84,
     69, 83, 84, 49, 55, 48, 48, 48, 48, 48, 48, 48, 48, 38, 112, 105,
     100, 61, 49, 48, 48, 49, 48, 48, 51, 53, 52, 57, 50, 52, 53, 51,
     51, 57, 38, 114, 101, 116, 117, 114, 110, 95, 117, 114, 108, 61, 104, 116,
     116, 112, 58, 47, 47, 101, 120, 97, 109, 112, 108, 101, 46, 99, 111, 109,
     47, 114, 101, 116, 117, 114, 110, 38, 116, 121, 112, 101, 61, 97, 108, 105,
     112, 97, 121, 99, 100, 53, 100, 99, 100, 99, 98, 101, 102, 52, 100, 97,
     54, 55, 98, 57, 102, 51, 97, 48, 49, 98, 49, 101, 51, 57, 49, 97,
     98, 56, 54]"

text \<open>The same parameters with \<open>sign_type\<close> present, and with an empty \<open>sitename\<close>.\<close>

definition example_base_sign_type :: pystr where
  "example_base_sign_type =
     ascii ''money=0.01&name='' @ [27979, 35797, 21830, 21697]
     @ ascii ''&notify_url=http://example.com/notify&out_trade_no=TEST1700000000''
     @ ascii ''&pid=1001003549245339&return_url=http://example.com/return''
     @ ascii ''&sign_type=MD5&type=alipay''"

definition example_bytes_sign_type :: "byte list" where
  "example_bytes_sign_type =
    [109, 111, 110, 101, 121, 61, 48, 46, 48, 49, 38, 110, 97, 109, 101, 61,
     230, 181, 139, 232, 175, 149, 229, 149, 134, 229, 147, 129, 38, 110, 111, 116,
     105, 102, 121, 95, 117, 114, 108, 61, 104, 116, 116, 112, 58, 47, 47, 101,
     120, 97, 109, 112, 108, 101, 46, 99, 111, 109, 47, 110, 111, 116, 105, 102,
     121, 38, 111, 117, 116, 95, 116, 114, 97, 100, 101, 95, 110, 111, 61, 84,
     69, 83, 84, 49, 55, 48, 48, 48, 48, 48, 48, 48, 48, 38, 112, 105,
     100, 61, 49, 48, 48, 49, 48, 48, 51, 53, 52, 57, 50, 52, 53, 51,
     51, 57, 38, 114, 101, 116, 117, 114, 110, 95, 117, 114, 108, 61, 104, 116,
     116, 112, 58, 47, 47, 101, 120, 97, 109, 112, 108, 101, 46, 99, 111, 109,
     47, 114, 101, 116, 117, 114, 110, 38, 115, 105, 103, 110, 95, 116, 121, 112,
     101, 61, 77, 68, 53, 38, 116, 121, 112, 101, 61, 97, 108, 105, 112, 97,
     121, 99, 100, 53, 100, 99, 100, 99, 98, 101, 102, 52, 100, 97, 54, 55,
     98, 57, 102, 51, 97, 48, 49, 98, 49, 101, 51, 57, 49, 97, 98, 56,
     54]"

definition example_base_sitename :: pystr where
  "example_base_sitename =
     ascii ''money=0.01&name='' @ [27979, 35797, 21830, 21697]
     @ ascii ''&notify_url=http://example.com/notify&out_trade_no=TEST1700000000''
     @ ascii ''&pid=1001003549245339&return_url=http://example.com/return''
     @ ascii ''&sitename=&type=alipay''"

definition example_bytes_sitename :: "byte list" where
  "example_bytes_sitename =
    [109, 111, 110, 101, 121, 61, 48, 46, 48, 49, 38, 110, 97, 109, 101, 61,
     230, 181, 139, 232, 175, 149, 229, 149, 134, 229, 147, 129, 38, 110, 111, 116,
     105, 102, 121, 95, 117, 114, 108, 61, 104, 116, 116, 112, 58, 47, 47, 101,
     120, 97, 109, 112, 108, 101, 46, 99, 111, 109, 47, 110, 111, 116, 105, 102,
     121, 38, 111, 117, 116, 95, 116, 114, 97, 100, 101, 95, 110, 111, 61, 84,
     69, 83, 84, 49, 55, 48, 48, 48, 48, 48, 48, 48, 48, 38, 112, 105,
     100, 61, 49, 48, 48, 49, 48, 48, 51, 53, 52, 57, 50, 52, 53, 51,
     51, 57, 38, 114, 101, 116, 117, 114, 110, 95, 117, 114, 108, 61, 104, 116,
     116, 112, 58, 47, 47, 101, 120, 97, 109, 112, 108, 101, 46, 99, 111, 109,
     47, 114, 101, 116, 117, 114, 110, 38, 115, 105, 116, 101, 110, 97, 109, 101,
     61, 38, 116, 121, 112, 101, 61, 97, 108, 105, 112, 97, 121, 99, 100, 53,
     100, 99, 100, 99, 98, 101, 102, 52, 100, 97, 54, 55, 98, 57, 102, 51,
     97, 48, 49, 98, 49, 101, 51, 57, 49, 97, 98, 56, 54]"

text \<open>A call with order fields supplied, for each builder.\<close>

definition supplied_kwargs :: "pystr \<rightharpoonup> pyval" where
  "supplied_kwargs =
     [ascii ''type'' \<mapsto> PStr (ascii ''wxpay''), ascii ''name'' \<mapsto> PStr (ascii ''VIP''),
      ascii ''money'' \<mapsto> PInt 5, ascii ''sitename'' \<mapsto> PStr (ascii ''My Shop'')]"

definition supplied_params :: dict where
  "supplied_params =
     [(ascii ''pid'', PStr (ascii ''1001003549245339'')),
      (ascii ''type'', PStr (ascii ''wxpay'')),
      (ascii ''out_trade_no'', PStr (ascii ''TEST1700000000'')),
      (ascii ''notify_url'', PStr (ascii ''http://example.com/notify'')),
      (ascii ''return_url'', PStr (ascii ''http://example.com/return'')),
      (ascii ''name'', PStr (ascii ''VIP'')),
      (ascii ''money'', PStr (ascii ''5'')),
      (ascii ''sign_type'', PStr (ascii ''MD5'')),
      (ascii ''sitename'', PStr (ascii ''My Shop''))]"

definition supplied_base :: pystr where
  "supplied_base =
     ascii ''money=5&name=VIP&notify_url=http://example.com/notify''
     @ ascii ''&out_trade_no=TEST1700000000&pid=1001003549245339''
     @ ascii ''&return_url=http://example.com/return&sitename=My Shop&type=wxpay''"

definition supplied_bytes :: "byte list" where
  "supplied_bytes =
    [109, 111, 110, 101, 121, 61, 53, 38, 110, 97, 109, 101, 61, 86, 73, 80,
     38, 110, 111, 116, 105, 102, 121, 95, 117, 114, 108, 61, 104, 116, 116, 112,
     58, 47, 47, 101, 120, 97, 109, 112, 108, 101, 46, 99, 111, 109, 47, 110,
     111, 116, 105, 102, 121, 38, 111, 117, 116, 95, 116, 114, 97, 100, 101, 95,
     110, 111, 61, 84, 69, 83, 84, 49, 55, 48, 48, 48, 48, 48, 48, 48,
     48, 38, 112, 105, 100, 61, 49, 48, 48, 49, 48, 48, 51, 53, 52, 57,
     50, 52, 53, 51, 51, 57, 38, 114, 101, 116, 117, 114, 110, 95, 117, 114,
     108, 61, 104, 116, 116, 112, 58, 47, 47, 101, 120, 97, 109, 112, 108, 101,
     46, 99, 111, 109, 47, 114, 101, 116, 117, 114, 110, 38, 115, 105, 116, 101,
     110, 97, 109, 101, 61, 77, 121, 32, 83, 104, 111, 112, 38, 116, 121, 112,
     101, 61, 119, 120, 112, 97, 121, 99, 100, 53, 100, 99, 100, 99, 98, 101,
     102, 52, 100, 97, 54, 55, 98, 57, 102, 51, 97, 48, 49, 98, 49, 101,
     51, 57, 49, 97, 98, 56, 54]"

definition supplied_params_v1 :: dict where
  "supplied_params_v1 =
     [(ascii ''pid'', PStr (ascii ''1001003549245339'')),
      (ascii ''type'', PStr (ascii ''alipay'')),
      (ascii ''out_trade_no'', PStr (ascii ''TEST1700000000'')),
      (ascii ''notify_url'', PStr (ascii ''http://example.com/notify'')),
      (ascii ''return_url'', PStr (ascii ''http://example.com/return'')),
      (ascii ''name'', PStr (ascii ''VIP'')),
      (ascii ''money'', PStr (ascii ''5.00''))]"

definition supplied_base_v1 :: pystr where
  "supplied_base_v1 =
     ascii ''money=5.00&name=VIP&notify_url=http://example.com/notify''
     @ ascii ''&out_trade_no=TEST1700000000&pid=1001003549245339''
     @ ascii ''&return_url=http://example.com/return&type=alipay''"

definition supplied_bytes_v1 :: "byte list" where
  "supplied_bytes_v1 =
    [109, 111, 110, 101, 121, 61, 53, 46, 48, 48, 38, 110, 97, 109, 101, 61,
     86, 73, 80, 38, 110, 111, 116, 105, 102, 121, 95, 117, 114, 108, 61, 104,
     116, 116, 112, 58, 47, 47, 101, 120, 97, 109, 112, 108, 101, 46, 99, 111,
     109, 47, 110, 111, 116, 105, 102, 121, 38, 111, 117, 116, 95, 116, 114, 97,
     100, 101, 95, 110, 111, 61, 84, 69, 83, 84, 49, 55, 48, 48, 48, 48,
     48, 48, 48, 48, 38, 112, 105, 100, 61, 49, 48, 48, 49, 48, 48, 51,
     53, 52, 57, 50, 52, 53, 51, 51, 57, 38, 114, 101, 116, 117, 114, 110,
     95, 117, 114, 108, 61, 104, 116, 116, 112, 58, 47, 47, 101, 120, 97, 109,
     112, 108, 101, 46, 99, 111, 109, 47, 114, 101, 116, 117, 114, 110, 38, 116,
     121, 112, 101, 61, 97, 108, 105, 112, 97, 121, 99, 100, 53, 100, 99, 100,
     99, 98, 101, 102, 52, 100, 97, 54, 55, 98, 57, 102, 51, 97, 48, 49,
     98, 49, 101, 51, 57, 49, 97, 98, 56, 54]"

section \<open>Decimal text\<close>






section \<open>The deep-link test script, \<^verbatim>\<open>test_alipay_deeplink.py\<close>\<close>

text \<open>
  \<open>requests.get\<close> either returns a response or raises. Of the exceptions the script
  tells \<open>requests.exceptions.ConnectionError\<close> (a refused connection, a connect
  timeout) from every other \<open>Exception\<close>. The server and the network are a function
  from the number of requests made so far and the request to what \<open>requests.get\<close>
  does with it.
\<close>

datatype exn = ConnectionError | OtherException

record request =
  url :: pystr
  allow_redirects :: bool

text \<open>
  Of a response the script reads the status code, the body (as JSON where it parses,
  as text otherwise) and the \<open>Location\<close> header.
\<close>

record response =
  status_code :: int
  body_json :: "pystr option"
  body_text :: pystr
  location :: "pystr option"

type_synonym server = "nat \<Rightarrow> request \<Rightarrow> exn + response"

text \<open>
  What the script prints, one value for each group of \<open>print\<close> calls: the banner and
  the configuration, the report of one test (its number, the URL, the status code and
  the body as printed), the report of the redirect test (the URL, the status code and
  the \<open>Location\<close> header where there is one), the closing banner with its hints, and
  the two messages of the \<open>except\<close> clauses.
\<close>

datatype line =
    Header
  | Config
  | TestReport nat pystr int pystr
  | RedirectReport pystr int "pystr option"
  | Completed
  | CannotConnect
  | OtherError

record run =
  requests :: "request list"
  out :: "line list"

definition BASE_URL_deeplink :: pystr where
  "BASE_URL_deeplink = ascii ''http://localhost:8080''"

definition QR_CODE_ID :: pyval where
  "QR_CODE_ID = PStr (ascii ''fkx12345678901234'')"

definition AMOUNT :: pyval where
  "AMOUNT = PFloat (ascii ''1.23'')"

definition REMARK :: pyval where
  "REMARK = PStr [27979, 35797, 35746, 21333]"

text \<open>
  One request and what follows it: the request is made; where \<open>requests.get\<close> raises,
  the exception leaves the test function; where it returns, the report is printed.
\<close>

definition perform ::
    "(pystr \<Rightarrow> response \<Rightarrow> line) \<Rightarrow> request \<Rightarrow> server \<Rightarrow> run \<Rightarrow> exn option \<times> run" where
  "perform report rq srv st =
     (case srv (length (requests st)) rq of
        Inl e \<Rightarrow> (Some e, st\<lparr>requests := requests st @ [rq]\<rparr>)
      | Inr r \<Rightarrow> (None, st\<lparr>requests := requests st @ [rq],
                            out := out st @ [report (url rq) r]\<rparr>))"

definition print_test :: "nat \<Rightarrow> pystr \<Rightarrow> response \<Rightarrow> line" where
  "print_test n u r =
     TestReport n u (status_code r) (case body_json r of Some j \<Rightarrow> j | None \<Rightarrow> body_text r)"

definition print_redirect :: "pystr \<Rightarrow> response \<Rightarrow> line" where
  "print_redirect u r = RedirectReport u (status_code r) (location r)"

text \<open>
  The five tests of \<open>/alipay/link\<close> are one body with different parameters: build the
  URL with \<open>urlencode\<close>, \<open>requests.get(url)\<close>, \<open>print_test\<close>. An error of \<open>urlencode\<close>
  is an \<open>Exception\<close> other than \<open>ConnectionError\<close>.
\<close>

definition link_test :: "nat \<Rightarrow> dict \<Rightarrow> server \<Rightarrow> run \<Rightarrow> exn option \<times> run" where
  "link_test n params srv st =
     (case urlencode params of
        Inl e \<Rightarrow> (Some OtherException, st)
      | Inr q \<Rightarrow>
          perform (print_test n)
            \<lparr>url = BASE_URL_deeplink @ ascii ''/alipay/link?'' @ q, allow_redirects = True\<rparr>
            srv st)"

definition test_default_qr_code_id :: "server \<Rightarrow> run \<Rightarrow> exn option \<times> run" where
  "test_default_qr_code_id =
     link_test 1 [(ascii ''amount'', AMOUNT), (ascii ''remark'', REMARK)]"

definition test_custom_qr_code_id :: "server \<Rightarrow> run \<Rightarrow> exn option \<times> run" where
  "test_custom_qr_code_id =
     link_test 2 [(ascii ''qr_code_id'', QR_CODE_ID), (ascii ''amount'', AMOUNT),
                  (ascii ''remark'', REMARK)]"

definition test_no_amount :: "server \<Rightarrow> run \<Rightarrow> exn option \<times> run" where
  "test_no_amount = link_test 3 [(ascii ''qr_code_id'', QR_CODE_ID)]"

definition test_missing_qr_code_id :: "server \<Rightarrow> run \<Rightarrow> exn option \<times> run" where
  "test_missing_qr_code_id = link_test 4 [(ascii ''amount'', AMOUNT)]"

definition test_invalid_amount :: "server \<Rightarrow> run \<Rightarrow> exn option \<times> run" where
  "test_invalid_amount =
     link_test 5 [(ascii ''qr_code_id'', QR_CODE_ID), (ascii ''amount'', PStr (ascii ''invalid''))]"

text \<open>\<open>requests.get(url, allow_redirects=False)\<close> on \<open>/alipay/pay\<close>.\<close>

definition test_redirect_to_alipay :: "server \<Rightarrow> run \<Rightarrow> exn option \<times> run" where
  "test_redirect_to_alipay srv st =
     (case urlencode [(ascii ''qr_code_id'', QR_CODE_ID), (ascii ''amount'', AMOUNT),
                      (ascii ''remark'', REMARK)] of
        Inl e \<Rightarrow> (Some OtherException, st)
      | Inr q \<Rightarrow>
          perform print_redirect
            \<lparr>url = BASE_URL_deeplink @ ascii ''/alipay/pay?'' @ q, allow_redirects = False\<rparr>
            srv st)"

text \<open>The statements of the \<open>try\<close> block in order: the first exception ends the block.\<close>

fun run_tests ::
    "(server \<Rightarrow> run \<Rightarrow> exn option \<times> run) list \<Rightarrow> server \<Rightarrow> run \<Rightarrow> exn option \<times> run" where
  "run_tests [] srv st = (None, st)"
| "run_tests (t # ts) srv st =
     (case t srv st of
        (Some e, st') \<Rightarrow> (Some e, st')
      | (None, st') \<Rightarrow> run_tests ts srv st')"

definition main :: "server \<Rightarrow> run" where
  "main srv =
     (case run_tests [test_default_qr_code_id, test_custom_qr_code_id, test_no_amount,
                      test_missing_qr_code_id, test_invalid_amount, test_redirect_to_alipay]
             srv \<lparr>requests = [], out = [Header, Config]\<rparr> of
        (None, st) \<Rightarrow> st\<lparr>out := out st @ [Completed]\<rparr>
      | (Some ConnectionError, st) \<Rightarrow> st\<lparr>out := out st @ [CannotConnect]\<rparr>
      | (Some OtherException, st) \<Rightarrow> st\<lparr>out := out st @ [OtherError]\<rparr>)"

text \<open>The six requests of a run in which none raises.\<close>

definition link_request :: "pystr \<Rightarrow> request" where
  "link_request q = \<lparr>url = ascii ''http://localhost:8080/alipay/link?'' @ q, allow_redirects = True\<rparr>"

definition six_requests :: "request list" where
  "six_requests =
     [link_request (ascii ''amount=1.23&remark=%E6%B5%8B%E8%AF%95%E8%AE%A2%E5%8D%95''),
      link_request (ascii ''qr_code_id=fkx12345678901234&amount=1.23&remark=%E6%B5%8B%E8%AF%95%E8%AE%A2%E5%8D%95''),
      link_request (ascii ''qr_code_id=fkx12345678901234''),
      link_request (ascii ''amount=1.23''),
      link_request (ascii ''qr_code_id=fkx12345678901234&amount=invalid''),
      \<lparr>url = ascii ''http://localhost:8080/alipay/pay?qr_code_id=fkx12345678901234&amount=1.23&remark=%E6%B5%8B%E8%AF%95%E8%AE%A2%E5%8D%95'',
       allow_redirects = False\<rparr>]"

definition six_reports :: "(pystr \<Rightarrow> response \<Rightarrow> line) list" where
  "six_reports = [print_test 1, print_test 2, print_test 3, print_test 4, print_test 5,
                  print_redirect]"

text \<open>Servers: one that answers every request, two that refuse one connection.\<close>

definition ok_response :: response where
  "ok_response = \<lparr>status_code = 200, body_json = Some (ascii ''{}''), body_text = ascii ''{}'',
                   location = None\<rparr>"

definition answering :: server where
  "answering n rq = Inr ok_response"

definition refusing_first :: server where
  "refusing_first n rq = (if n = 0 then Inl ConnectionError else Inr ok_response)"

definition refusing_third :: server where
  "refusing_third n rq = (if n = 2 then Inl ConnectionError else Inr ok_response)"

section \<open>Encoding and digest: basic facts\<close>

lemma utf8_char_total: "scalar c \<Longrightarrow> \<exists>bs. utf8_char c = Inr bs"
  by (auto simp: utf8_char_def scalar_def)

lemma utf8_encode_total: "valid_text s \<Longrightarrow> utf8_encode s = Inr (utf8 s)"
proof (induction s)
  case Nil
  then show ?case by (simp add: utf8_def)
next
  case (Cons c s)
  then have "scalar c" and "valid_text s" by (simp_all add: valid_text_def)
  then obtain bs where "utf8_char c = Inr bs" using utf8_char_total by blast
  with Cons.IH \<open>valid_text s\<close> show ?case by (simp add: utf8_def split: sum.splits)
qed

lemma utf8_encode_append:
  "utf8_encode s = Inr a \<Longrightarrow> utf8_encode t = Inr b \<Longrightarrow> utf8_encode (s @ t) = Inr (a @ b)"
  by (induction s arbitrary: a) (auto split: sum.splits)

lemma valid_text_append [simp]: "valid_text (s @ t) = (valid_text s \<and> valid_text t)"
  by (simp add: valid_text_def)

lemma utf8_append: "valid_text s \<Longrightarrow> valid_text t \<Longrightarrow> utf8 (s @ t) = utf8 s @ utf8 t"
  using utf8_encode_append [OF utf8_encode_total utf8_encode_total, of s t]
  by (simp add: utf8_def)

lemma utf8_encode_error: "\<not> valid_text s \<Longrightarrow> utf8_encode s = Inl UnicodeEncodeError"
  by (induction s) (auto simp: valid_text_def utf8_char_def scalar_def split: sum.splits)

lemma length_le_bytes [simp]: "length (le_bytes n w) = n"
  by (simp add: le_bytes_def)

lemma length_md5_digest [simp]: "length (md5_digest bs) = 16"
  by (simp add: md5_digest_def Let_def split: prod.splits)

lemma length_hexdigest [simp]: "length (hexdigest bs) = 2 * length bs"
  by (induction bs) (simp_all add: hexdigest_def)

lemma lower_hex_hex_lower: "n < 16 \<Longrightarrow> lower_hex (hex_lower n)"
  by (simp add: lower_hex_def hex_lower_def)

lemma unat_byte_less: "unat (b :: byte) < 256"
  using unsigned_less [of b, where ?'a = nat] by simp

lemma lower_hex_hexdigest: "list_all lower_hex (hexdigest bs)"
proof (induction bs)
  case Nil
  then show ?case by (simp add: hexdigest_def)
next
  case (Cons b bs)
  have "unat b div 16 < 16" using unat_byte_less [of b] by simp
  moreover have "unat b mod 16 < 16" by simp
  ultimately show ?case using Cons by (simp add: hexdigest_def lower_hex_hex_lower)
qed

lemma md5_valid:
  "valid_text s \<Longrightarrow> md5 s = Inr (hexdigest (md5_digest (utf8 s)))"
  by (simp add: md5_def utf8_encode_total)

lemma md5_invalid: "\<not> valid_text s \<Longrightarrow> md5 s = Inl UnicodeEncodeError"
  by (simp add: md5_def utf8_encode_error)

section \<open>The signers: general facts\<close>

lemma traverse_Inr: "(\<And>x. x \<in> set xs \<Longrightarrow> f x = Inr (g x)) \<Longrightarrow> traverse f xs = Inr (map g xs)"
  by (induction xs) simp_all

lemma dict_get_present: "k \<in> fst ` set d \<Longrightarrow> dict_get d k = Inr (the (map_of d k))"
  by (auto simp: dict_get_def map_of_eq_None_iff split: option.splits)

lemma sign_str_total:
  "sign_str params =
     Inr (join (ascii ''&'')
           (map (\<lambda>k. k @ ascii ''='' @ py_str (the (map_of (filtered params) k)))
                (sorted_keys params)))"
proof -
  have "traverse (\<lambda>k. case dict_get (filtered params) k of Inl e \<Rightarrow> Inl e
                        | Inr v \<Rightarrow> Inr (k @ ascii ''='' @ py_str v)) (sorted_keys params)
        = Inr (map (\<lambda>k. k @ ascii ''='' @ py_str (the (map_of (filtered params) k)))
                   (sorted_keys params))"
    by (rule traverse_Inr) (simp add: sorted_keys_def dict_get_present)
  then show ?thesis by (simp add: sign_str_def)
qed

lemma sign_str_cong: "filtered p = filtered q \<Longrightarrow> sign_str p = sign_str q"
  by (simp add: sign_str_def sorted_keys_def)

lemma generate_sign_cong: "filtered p = filtered q \<Longrightarrow> generate_sign p K = generate_sign q K"
  using sign_str_cong [of p q] by (simp add: generate_sign_def)

lemma filtered_dict_del_reserved: "k \<in> set reserved \<Longrightarrow> filtered (dict_del p k) = filtered p"
  by (induction p) (auto simp: filtered_def dict_del_def)

lemma filtered_Cons:
  "filtered ((k, v) # p) = (if truthy v \<and> k \<notin> set reserved then (k, v) # filtered p else filtered p)"
  by (simp add: filtered_def)

lemma filtered_dict_set_reserved': "k \<in> set reserved \<Longrightarrow> filtered (dict_set p k v) = filtered p"
proof (induction p)
  case Nil
  then show ?case by (simp add: filtered_def)
next
  case (Cons e p)
  obtain k' v' where e: "e = (k', v')" by (cases e)
  with Cons show ?case by (cases "k' = k") (simp_all add: filtered_Cons)
qed

lemma filtered_dict_set_reserved:
  "k \<in> set reserved \<Longrightarrow> filtered (dict_set p k v) = filtered (dict_del p k)"
  by (simp add: filtered_dict_del_reserved filtered_dict_set_reserved')

lemma dict_del_absent: "k \<notin> fst ` set p \<Longrightarrow> dict_del p k = p"
  by (induction p) (auto simp: dict_del_def)

lemma filtered_dict_set_falsy:
  "\<not> truthy v \<Longrightarrow> distinct (map fst p) \<Longrightarrow> filtered (dict_set p k v) = filtered (dict_del p k)"
proof (induction p)
  case Nil
  then show ?case by (simp add: filtered_def dict_del_def)
next
  case (Cons e p)
  obtain k' v' where e: "e = (k', v')" by (cases e)
  show ?case
  proof (cases "k' = k")
    case True
    with Cons.prems e have "k \<notin> fst ` set p" by auto
    then have "dict_del p k = p" by (rule dict_del_absent)
    with True e Cons.prems(1) show ?thesis by (simp add: filtered_def dict_del_def)
  next
    case False
    with Cons e show ?thesis by (simp add: filtered_def dict_del_def)
  qed
qed

text \<open>
  The signer of \<^verbatim>\<open>generate_payment_url_v2.py\<close> and \<^verbatim>\<open>test_payment.py\<close> ignores an
  entry under a reserved key, whatever its value.
\<close>

lemma generate_sign_ignores_reserved:
  "k \<in> set reserved \<Longrightarrow> generate_sign (dict_set p k v) K = generate_sign (dict_del p k) K"
  by (rule generate_sign_cong) (rule filtered_dict_set_reserved)

text \<open>It ignores an entry whose value is the empty string.\<close>

lemma generate_sign_ignores_empty:
  "k \<notin> fst ` set p \<Longrightarrow> generate_sign (dict_set p k (PStr [])) K = generate_sign p K"
proof -
  assume fresh: "k \<notin> fst ` set p"
  have "filtered (dict_set p k (PStr [])) = filtered p"
    using fresh by (induction p) (auto simp: filtered_Cons filtered_def)
  then show ?thesis by (rule generate_sign_cong)
qed

text \<open>
  C10. The filter of the signer of \<^verbatim>\<open>generate_payment_url_v2.py\<close> (and of
  \<^verbatim>\<open>test_payment.py\<close>) tests the truth value of each entry: storing a falsy value
  (\<open>0\<close>, \<open>False\<close>, \<open>None\<close>, \<open>0.0\<close>, the empty string) under a key gives the same
  signature as the dictionary without that key.
\<close>

theorem falsy_value_as_absent:
  "\<not> truthy v \<Longrightarrow> distinct (map fst p) \<Longrightarrow>
     generate_sign (dict_set p k v) K = generate_sign (dict_del p k) K"
  by (rule generate_sign_cong) (rule filtered_dict_set_falsy)

theorem falsy_value_as_absent_witness:
  "\<not> truthy (PInt 0) \<and> distinct (map fst example_P)
   \<and> generate_sign
        [(ascii ''pid'', PStr (ascii ''1001003549245339'')),
         (ascii ''type'', PStr (ascii ''alipay'')),
         (ascii ''out_trade_no'', PStr (ascii ''TEST1700000000'')),
         (ascii ''notify_url'', PStr (ascii ''http://example.com/notify'')),
         (ascii ''return_url'', PStr (ascii ''http://example.com/return'')),
         (ascii ''name'', PStr [27979, 35797, 21830, 21697]),
         (ascii ''money'', PInt 0)] example_K
     = generate_sign
        [(ascii ''pid'', PStr (ascii ''1001003549245339'')),
         (ascii ''type'', PStr (ascii ''alipay'')),
         (ascii ''out_trade_no'', PStr (ascii ''TEST1700000000'')),
         (ascii ''notify_url'', PStr (ascii ''http://example.com/notify'')),
         (ascii ''return_url'', PStr (ascii ''http://example.com/return'')),
         (ascii ''name'', PStr [27979, 35797, 21830, 21697])] example_K"
proof -
  have f: "\<not> truthy (PInt 0)" by simp
  have d: "distinct (map fst example_P)" by (simp add: example_P_def ascii_def)
  show ?thesis
    using f d falsy_value_as_absent [OF f d, of "ascii ''money''" example_K]
    by (simp add: example_P_def dict_del_def ascii_def)
qed

section \<open>The concrete scenario: canonical string\<close>

lemma example_sign_str: "sign_str example_P = Inr example_base"
  by (simp add: sign_str_def sorted_keys_def filtered_def reserved_def dict_get_def
      example_P_def example_base_def ascii_def)

lemma example_sign_str_v1: "sign_str_v1 example_P = example_base"
  by (simp add: sign_str_v1_def example_P_def example_base_def ascii_def)


lemma signature_is_md5_hex_aux:
  "valid_text s \<Longrightarrow> valid_text K \<Longrightarrow>
     md5 (s @ K) = Inr (hexdigest (md5_digest (utf8 s @ utf8 K)))"
  using utf8_encode_append [OF utf8_encode_total utf8_encode_total, of s K]
  by (simp add: md5_def)

text \<open>
  C4. For a canonical string \<open>s\<close> and a secret \<open>K\<close> that are text (no lone surrogate),
  the signature is the MD5 digest of the UTF-8 bytes of \<open>s\<close> followed directly by those
  of \<open>K\<close>, written as 32 lowercase hexadecimal characters; the computation returns and
  raises nothing. This is what both signers return for a dictionary whose canonical
  string is \<open>s\<close>.
\<close>

theorem signature_is_md5_hex:
  "valid_text s \<Longrightarrow> valid_text K \<Longrightarrow>
     utf8_encode (s @ K) = Inr (utf8 s @ utf8 K)
     \<and> md5 (s @ K) = Inr (hexdigest (md5_digest (utf8 s @ utf8 K)))
     \<and> length (hexdigest (md5_digest (utf8 s @ utf8 K))) = 32
     \<and> list_all lower_hex (hexdigest (md5_digest (utf8 s @ utf8 K)))
     \<and> (sign_str p = Inr s \<longrightarrow>
          generate_sign p K = Inr (hexdigest (md5_digest (utf8 s @ utf8 K))))
     \<and> (sign_str_v1 q = s \<longrightarrow>
          generate_sign_v1 q K = Inr (hexdigest (md5_digest (utf8 s @ utf8 K))))"
proof -
  assume s: "valid_text s" and K: "valid_text K"
  have enc: "utf8_encode (s @ K) = Inr (utf8 s @ utf8 K)"
    using utf8_encode_append [OF utf8_encode_total [OF s] utf8_encode_total [OF K]] .
  then have m: "md5 (s @ K) = Inr (hexdigest (md5_digest (utf8 s @ utf8 K)))"
    by (simp add: md5_def)
  have "generate_sign p K = md5 (s @ K)" if "sign_str p = Inr s"
    using that by (simp add: generate_sign_def)
  moreover have "generate_sign_v1 q K = md5 (s @ K)" if "sign_str_v1 q = s"
    using that by (simp add: generate_sign_v1_def)
  ultimately show ?thesis
    using enc m by (simp add: lower_hex_hexdigest)
qed

lemma example_valid: "valid_text example_base" "valid_text example_K"
  by (simp_all add: example_base_def example_K_def valid_text_def scalar_def ascii_def)

theorem signature_is_md5_hex_witness:
  "valid_text example_base \<and> valid_text example_K
   \<and> sign_str example_P = Inr example_base \<and> sign_str_v1 example_P = example_base
   \<and> md5 (example_base @ example_K)
       = Inr (hexdigest (md5_digest (utf8 example_base @ utf8 example_K)))
   \<and> length (hexdigest (md5_digest (utf8 example_base @ utf8 example_K))) = 32
   \<and> generate_sign example_P example_K
       = Inr (hexdigest (md5_digest (utf8 example_base @ utf8 example_K)))
   \<and> generate_sign_v1 example_P example_K
       = Inr (hexdigest (md5_digest (utf8 example_base @ utf8 example_K)))"
  using signature_is_md5_hex [OF example_valid, of example_P example_P]
    example_valid example_sign_str example_sign_str_v1
  by simp

section \<open>Text that always encodes\<close>

lemma valid_text_Cons [simp]: "valid_text (c # s) = (scalar c \<and> valid_text s)"
  by (simp add: valid_text_def)

lemma valid_text_Nil [simp]: "valid_text []"
  by (simp add: valid_text_def)

lemma valid_text_ascii [simp]: "valid_text (ascii s)"
proof -
  have "scalar (of_char c)" for c :: char
  proof -
    have "(of_char c :: nat) < 256" by simp
    then show ?thesis unfolding scalar_def by linarith
  qed
  then show ?thesis by (induction s) (simp_all add: ascii_def)
qed

lemma valid_text_digits10: "valid_text (digits10 n)"
proof (induction n rule: digits10.induct)
  case (1 n)
  show ?case
  proof (cases "n < 10")
    case True
    then show ?thesis by (subst digits10.simps) (simp add: scalar_def)
  next
    case False
    have "n mod 10 < 10" by simp
    then have "scalar (48 + n mod 10)" unfolding scalar_def by linarith
    with False 1 show ?thesis by (subst digits10.simps) simp
  qed
qed

lemma valid_text_py_str:
  "(case v of PStr s \<Rightarrow> valid_text s | PFloat r \<Rightarrow> valid_text r | _ \<Rightarrow> True) \<Longrightarrow> valid_text (py_str v)"
  by (cases v) (simp_all add: valid_text_digits10 scalar_def)

lemma valid_text_join:
  "valid_text sep \<Longrightarrow> list_all valid_text xs \<Longrightarrow> valid_text (join sep xs)"
  by (induction sep xs rule: join.induct) simp_all

lemma join_snoc: "join sep (xs @ [x]) = (if xs = [] then x else join sep xs @ sep @ x)"
  by (induction sep xs rule: join.induct) simp_all

lemma traverse_append:
  "traverse f xs = Inr a \<Longrightarrow> traverse f ys = Inr b \<Longrightarrow> traverse f (xs @ ys) = Inr (a @ b)"
  by (induction xs arbitrary: a) (auto split: sum.splits)

section \<open>Quoting\<close>

lemma unat_of_nat_byte: "n < 256 \<Longrightarrow> unat (of_nat n :: byte) = n"
  by (simp add: unat_of_nat)

lemma utf8_Cons:
  "valid_text (c # s) \<Longrightarrow> utf8 (c # s) = utf8 [c] @ utf8 s"
  using utf8_append [of "[c]" s] by simp

lemma utf8_Nil [simp]: "utf8 [] = []"
  by (simp add: utf8_def)

lemma utf8_single_ascii: "c < 128 \<Longrightarrow> utf8 [c] = [of_nat c]"
  by (simp add: utf8_def utf8_char_def)

lemma unat_byte_of_nat: "n < 256 \<Longrightarrow> unat (word_of_nat n :: byte) = n"
  by (simp add: unat_of_nat)

lemma utf8_single_unat:
  assumes "scalar c"
  shows "map unat (utf8 [c]) =
     (if c < 128 then [c]
      else if c < 2048 then [192 + c div 64, 128 + c mod 64]
      else if c < 65536 then [224 + c div 4096, 128 + c div 64 mod 64, 128 + c mod 64]
      else [240 + c div 262144, 128 + c div 4096 mod 64, 128 + c div 64 mod 64, 128 + c mod 64])"
proof -
  have m: "c mod 64 < 64" "c div 64 mod 64 < 64" "c div 4096 mod 64 < 64" by simp_all
  consider "c < 128" | "128 \<le> c" "c < 2048" | "2048 \<le> c" "c < 65536" | "65536 \<le> c"
    by linarith
  then show ?thesis
  proof cases
    case 1
    then show ?thesis
      by (simp add: utf8_def utf8_char_def unat_byte_of_nat del: of_nat_add of_nat_numeral)
  next
    case 2
    then have "c div 64 < 32" by simp
    with 2 m show ?thesis
      by (simp add: utf8_def utf8_char_def unat_byte_of_nat del: of_nat_add of_nat_numeral)
  next
    case 3
    then have "c div 4096 < 16" by simp
    moreover from assms have "\<not> (55296 \<le> c \<and> c < 57344)" unfolding scalar_def by linarith
    ultimately show ?thesis using 3 m
      by (simp add: utf8_def utf8_char_def unat_byte_of_nat del: of_nat_add of_nat_numeral)
  next
    case 4
    with assms have "c < 1114112" by (simp add: scalar_def)
    then have "c div 262144 < 8" by simp
    with 4 m assms show ?thesis
      by (simp add: utf8_def utf8_char_def scalar_def unat_byte_of_nat del: of_nat_add of_nat_numeral)
  qed
qed

lemma utf8_single_no_space:
  assumes "scalar c" "c \<noteq> 32"
  shows "(32 :: byte) \<notin> set (utf8 [c])"
proof
  assume "(32 :: byte) \<in> set (utf8 [c])"
  then have "unat (32 :: byte) \<in> set (map unat (utf8 [c]))" by (simp only: set_map) (rule imageI)
  then have "32 \<in> set (map unat (utf8 [c]))" by simp
  with assms show False
    by (simp only: utf8_single_unat [OF assms(1)]) (auto split: if_splits)
qed

lemma utf8_no_space:
  "valid_text s \<Longrightarrow> 32 \<notin> set s \<Longrightarrow> (32 :: byte) \<notin> set (utf8 s)"
proof (induction s)
  case Nil
  then show ?case by simp
next
  case (Cons c s)
  then have c: "scalar c" "c \<noteq> 32" by auto
  with Cons utf8_single_no_space [OF c] utf8_Cons [of c s] show ?case by simp
qed

lemma quote_valid:
  "valid_text s \<Longrightarrow>
     quote s safe = Inr (quote_from_bytes (utf8 s) (map of_nat (filter (\<lambda>c. c < 128) safe)))"
  by (simp add: quote_def utf8_encode_total quote_from_bytes_def)

lemma always_safe_not_space: "always_safe b \<Longrightarrow> unat b \<noteq> 32"
  by (auto simp: always_safe_def Let_def)

lemma hex_upper_ge: "48 \<le> hex_upper n"
  by (simp add: hex_upper_def)

lemma plus_quote_byte:
  "map (\<lambda>c. if c = 32 then 43 else c) (quote_byte [32] b) = qp_byte b"
proof (cases "b = 32")
  case True
  then show ?thesis by (simp add: qp_byte_def quote_byte_def always_safe_def)
next
  case False
  then have u: "unat b \<noteq> 32"
    by (simp add: word_unat_eq_iff)
  have h: "hex_upper n \<noteq> 32" for n using hex_upper_ge [of n] by simp
  from False u show ?thesis
    by (simp add: qp_byte_def quote_byte_def h)
qed

lemma quote_plus_valid: "valid_text s \<Longrightarrow> quote_plus s = Inr (qp s)"
proof -
  assume v: "valid_text s"
  show ?thesis
  proof (cases "32 \<in> set s")
    case True
    have "map (\<lambda>c. if c = 32 then 43 else c) (concat (map (quote_byte [32]) bs))
          = concat (map qp_byte bs)" for bs
      by (induction bs) (simp_all add: plus_quote_byte)
    with True v show ?thesis
      by (simp add: quote_plus_def quote_valid quote_from_bytes_def qp_def)
  next
    case False
    with v have "(32 :: byte) \<notin> set (utf8 s)" by (rule utf8_no_space)
    then have "concat (map (quote_byte []) (utf8 s)) = concat (map qp_byte (utf8 s))"
      by (intro arg_cong [where f = concat] map_cong) (auto simp: qp_byte_def)
    with False v show ?thesis
      by (simp add: quote_plus_def quote_valid quote_from_bytes_def qp_def)
  qed
qed

lemma urlencode_pair_valid:
  "valid_text k \<Longrightarrow> valid_text (py_str v) \<Longrightarrow>
     urlencode_pair (k, v) = Inr (qp k @ ascii ''='' @ qp (py_str v))"
  by (simp add: urlencode_pair_def quote_plus_valid)

lemma urlencode_valid: "wf_dict p \<Longrightarrow> urlencode p = Inr (query_of p)"
proof -
  assume "wf_dict p"
  then have "traverse urlencode_pair p
             = Inr (map (\<lambda>(k, v). qp k @ ascii ''='' @ qp (py_str v)) p)"
    by (intro traverse_Inr) (auto simp: wf_dict_def list_all_iff urlencode_pair_valid)
  then show ?thesis by (simp add: urlencode_def query_of_def)
qed

section \<open>The signers return on encodable dictionaries\<close>

lemma wf_dict_filtered: "wf_dict p \<Longrightarrow> wf_dict (filtered p)"
  by (simp add: wf_dict_def filtered_def list_all_iff)

lemma wf_dict_lookup:
  "wf_dict p \<Longrightarrow> k \<in> fst ` set p \<Longrightarrow> valid_text k \<and> valid_text (py_str (the (map_of p k)))"
proof -
  assume wf: "wf_dict p" and k: "k \<in> fst ` set p"
  then obtain v where "map_of p k = Some v"
    by (metis map_of_eq_None_iff not_Some_eq)
  moreover from this have "(k, v) \<in> set p" by (rule map_of_SomeD)
  ultimately show ?thesis using wf by (auto simp: wf_dict_def list_all_iff)
qed

lemma sign_str_valid: "wf_dict p \<Longrightarrow> \<exists>s. sign_str p = Inr s \<and> valid_text s"
proof -
  assume "wf_dict p"
  then have wf: "wf_dict (filtered p)" by (rule wf_dict_filtered)
  have "list_all valid_text
          (map (\<lambda>k. k @ ascii ''='' @ py_str (the (map_of (filtered p) k))) (sorted_keys p))"
    using wf_dict_lookup [OF wf] by (auto simp: list_all_iff sorted_keys_def)
  then have "valid_text (join (ascii ''&'')
          (map (\<lambda>k. k @ ascii ''='' @ py_str (the (map_of (filtered p) k))) (sorted_keys p)))"
    by (intro valid_text_join) simp_all
  then show ?thesis by (simp add: sign_str_total)
qed

lemma generate_sign_valid:
  assumes "wf_dict p" "valid_text K"
  shows "\<exists>sign. generate_sign p K = Inr sign \<and> length sign = 32 \<and> list_all lower_hex sign"
proof -
  from sign_str_valid [OF assms(1)] obtain s where s: "sign_str p = Inr s" "valid_text s"
    by blast
  from signature_is_md5_hex_aux [OF s(2) assms(2)] s(1) show ?thesis
    by (simp add: generate_sign_def lower_hex_hexdigest)
qed

section \<open>Quoting text that needs no escape\<close>

lemma qp_append: "valid_text s \<Longrightarrow> valid_text t \<Longrightarrow> qp (s @ t) = qp s @ qp t"
  by (simp add: qp_def utf8_append)

lemma qp_Nil [simp]: "qp [] = []"
  by (simp add: qp_def)

lemma qp_single_safe:
  assumes "c < 128" "always_safe (of_nat c :: byte)"
  shows "qp [c] = [c]"
proof -
  have u: "unat (of_nat c :: byte) = c" using assms(1) by (simp add: unat_of_nat)
  with assms(2) have "c \<noteq> 32" using always_safe_not_space by blast
  then have "(of_nat c :: byte) \<noteq> 32" using u by (auto simp: word_unat_eq_iff)
  with assms u show ?thesis
    by (simp add: qp_def utf8_single_ascii qp_byte_def quote_byte_def del: of_nat_eq_numeral_iff)
qed

lemma qp_safe:
  "list_all (\<lambda>c. c < 128 \<and> always_safe (of_nat c :: byte)) s \<Longrightarrow> qp s = s"
proof (induction s)
  case Nil
  then show ?case by simp
next
  case (Cons c s)
  then have c: "c < 128" "always_safe (of_nat c :: byte)" and s: "qp s = s" by simp_all
  from c(1) have "scalar c" by (simp add: scalar_def)
  moreover have "valid_text s"
    using Cons.prems by (auto simp: valid_text_def list_all_iff scalar_def)
  ultimately have "qp ([c] @ s) = qp [c] @ qp s" by (intro qp_append) simp_all
  with s qp_single_safe [OF c] show ?case by simp
qed

lemma lower_hex_safe: "lower_hex c \<Longrightarrow> c < 128 \<and> always_safe (of_nat c :: byte)"
proof -
  assume h: "lower_hex c"
  then have "c < 128" by (auto simp: lower_hex_def)
  then have "unat (of_nat c :: byte) = c" by (simp add: unat_of_nat)
  with h \<open>c < 128\<close> show ?thesis by (auto simp: always_safe_def lower_hex_def)
qed

lemma qp_lower_hex: "list_all lower_hex s \<Longrightarrow> qp s = s"
  by (rule qp_safe) (auto simp: list_all_iff lower_hex_safe)

lemma valid_text_lower_hex: "list_all lower_hex s \<Longrightarrow> valid_text s"
  by (auto simp: list_all_iff valid_text_def lower_hex_def scalar_def)

lemma qp_sign_type: "qp (ascii ''sign_type'') = ascii ''sign_type''"
  by (rule qp_safe) (simp add: ascii_def always_safe_def)

lemma qp_sign: "qp (ascii ''sign'') = ascii ''sign''"
  by (rule qp_safe) (simp add: ascii_def always_safe_def)

lemma qp_MD5: "qp (ascii ''MD5'') = ascii ''MD5''"
  by (rule qp_safe) (simp add: ascii_def always_safe_def)

section \<open>Dictionaries and joins\<close>

lemma dict_set_fresh: "k \<notin> fst ` set p \<Longrightarrow> dict_set p k v = p @ [(k, v)]"
  by (induction p) auto

lemma join_append:
  "xs \<noteq> [] \<Longrightarrow> ys \<noteq> [] \<Longrightarrow> join sep (xs @ ys) = join sep xs @ sep @ join sep ys"
  by (induction sep xs rule: join.induct) (auto simp: neq_Nil_conv)

lemma join_Cons: "join sep (x # xs) = (if xs = [] then x else x @ sep @ join sep xs)"
  by (cases xs) simp_all

lemma wf_dict_append [simp]: "wf_dict (p @ q) = (wf_dict p \<and> wf_dict q)"
  by (simp add: wf_dict_def)

section \<open>The URL builder of \<^verbatim>\<open>generate_payment_url_v2.py\<close>\<close>

lemma valid_text_py_str_PInt [simp]: "valid_text (py_str (PInt n))"
  by (rule valid_text_py_str) simp

lemma keys_default_params:
  "map fst (default_params now pid kwargs) =
     [ascii ''pid'', ascii ''type'', ascii ''out_trade_no'', ascii ''notify_url'',
      ascii ''return_url'', ascii ''name'', ascii ''money'', ascii ''sign_type'']"
  by (simp add: default_params_def)

lemma valid_kwargs_get:
  "valid_kwargs kwargs \<Longrightarrow> k \<in> set order_fields \<Longrightarrow> valid_text (py_str d) \<Longrightarrow>
     valid_text (py_str (kwargs_get kwargs k d))"
  by (auto simp: valid_kwargs_def list_all_iff kwargs_get_def split: option.splits)

lemma wf_default_params:
  assumes "valid_text (py_str pid)" "valid_kwargs kwargs"
  shows "wf_dict (default_params now pid kwargs)"
proof -
  have "valid_text (py_str (kwargs_get kwargs k (PStr d)))"
    if "k \<in> set order_fields" "valid_text d" for k d
    using valid_kwargs_get [OF assms(2) that(1)] that(2) by simp
  then show ?thesis
    using assms(1)
    by (simp add: wf_dict_def default_params_def order_fields_def scalar_def valid_text_digits10)
qed

lemma params_before_sign_cases:
  "params_before_sign now pid kwargs = default_params now pid kwargs
   \<or> (\<exists>v. kwargs (ascii ''sitename'') = Some v \<and> truthy v
          \<and> params_before_sign now pid kwargs
              = default_params now pid kwargs @ [(ascii ''sitename'', v)])"
proof -
  have "ascii ''sitename'' \<notin> fst ` set (default_params now pid kwargs)"
    using keys_default_params [of now pid kwargs]
    by (simp only: set_map [symmetric]) (simp add: ascii_def)
  then show ?thesis
    by (simp add: params_before_sign_def with_sitename_def dict_set_fresh split: option.splits)
qed

lemma wf_params_before_sign:
  assumes "valid_text (py_str pid)" "valid_kwargs kwargs"
  shows "wf_dict (params_before_sign now pid kwargs)"
proof -
  have "valid_text (py_str v)" if "kwargs (ascii ''sitename'') = Some v" for v
    using assms(2) that by (simp add: valid_kwargs_def order_fields_def)
  with params_before_sign_cases [of now pid kwargs] wf_default_params [OF assms, of now]
  show ?thesis by (auto simp: wf_dict_def)
qed

lemma sign_not_in_params_before_sign:
  "ascii ''sign'' \<notin> fst ` set (params_before_sign now pid kwargs)"
proof -
  have "ascii ''sign'' \<notin> set (map fst (default_params now pid kwargs))"
    by (simp only: keys_default_params) (simp add: ascii_def)
  moreover have "ascii ''sign'' \<noteq> ascii ''sitename''" by (simp add: ascii_def)
  ultimately show ?thesis
    using params_before_sign_cases [of now pid kwargs] by auto
qed

lemma sign_type_in_params_before_sign:
  "map_of (params_before_sign now pid kwargs) (ascii ''sign_type'') = Some (PStr (ascii ''MD5''))"
proof -
  have "map_of (default_params now pid kwargs) (ascii ''sign_type'') = Some (PStr (ascii ''MD5''))"
    by (simp add: default_params_def ascii_def)
  then show ?thesis
    using params_before_sign_cases [of now pid kwargs] by auto
qed

lemma urlencode_snoc_sign:
  assumes "wf_dict p" "p \<noteq> []" "list_all lower_hex sign"
  shows "urlencode (p @ [(ascii ''sign'', PStr sign)]) = Inr (query_of p @ ascii ''&sign='' @ sign)"
proof -
  have "wf_dict (p @ [(ascii ''sign'', PStr sign)])"
    using assms(1) valid_text_lower_hex [OF assms(3)] by (simp add: wf_dict_def)
  then show ?thesis
    using assms(2)
    by (simp add: urlencode_valid query_of_def join_snoc qp_sign qp_lower_hex [OF assms(3)])
       (simp add: ascii_def)
qed

lemma query_of_append:
  "p \<noteq> [] \<Longrightarrow> q \<noteq> [] \<Longrightarrow> query_of (p @ q) = query_of p @ ascii ''&'' @ query_of q"
  by (simp add: query_of_def join_append)

lemma query_of_sign_type:
  "query_of [(ascii ''sign_type'', PStr (ascii ''MD5''))] = ascii ''sign_type=MD5''"
  by (simp add: query_of_def qp_sign_type qp_MD5) (simp add: ascii_def)

lemma default_params_split:
  "\<exists>d. d \<noteq> [] \<and> default_params now pid kwargs = d @ [(ascii ''sign_type'', PStr (ascii ''MD5''))]"
  by (simp add: default_params_def)

lemma query_of_params_before_sign:
  "\<exists>a b. query_of (params_before_sign now pid kwargs) = a @ ascii ''&sign_type=MD5'' @ b"
proof -
  obtain d where d: "d \<noteq> []"
    "default_params now pid kwargs = d @ [(ascii ''sign_type'', PStr (ascii ''MD5''))]"
    using default_params_split by blast
  have amp: "ascii ''&'' @ ascii ''sign_type=MD5'' = ascii ''&sign_type=MD5''"
    by (simp add: ascii_def)
  have q: "query_of (default_params now pid kwargs) = query_of d @ ascii ''&sign_type=MD5''"
    using d by (simp add: query_of_append query_of_sign_type amp)
  from params_before_sign_cases [of now pid kwargs] show ?thesis
  proof
    assume "params_before_sign now pid kwargs = default_params now pid kwargs"
    with q have "query_of (params_before_sign now pid kwargs)
                 = query_of d @ ascii ''&sign_type=MD5'' @ []" by simp
    then show ?thesis by blast
  next
    assume "\<exists>v. kwargs (ascii ''sitename'') = Some v \<and> truthy v
           \<and> params_before_sign now pid kwargs
               = default_params now pid kwargs @ [(ascii ''sitename'', v)]"
    then obtain v where "params_before_sign now pid kwargs
               = default_params now pid kwargs @ [(ascii ''sitename'', v)]" by blast
    moreover have "default_params now pid kwargs \<noteq> []"
      by (simp add: d(2))
    then have "query_of (default_params now pid kwargs @ [(ascii ''sitename'', v)])
          = query_of (default_params now pid kwargs) @ ascii ''&''
            @ query_of [(ascii ''sitename'', v)]"
      by (rule query_of_append) simp
    ultimately have "query_of (params_before_sign now pid kwargs)
          = query_of (default_params now pid kwargs) @ ascii ''&''
            @ query_of [(ascii ''sitename'', v)]"
      by (simp only:)
    then have "query_of (params_before_sign now pid kwargs)
          = query_of d @ ascii ''&sign_type=MD5'' @ (ascii ''&'' @ query_of [(ascii ''sitename'', v)])"
      by (simp only: q append_assoc)
    then show ?thesis by blast
  qed
qed

lemma params_before_sign_defaults:
  "(kwargs (ascii ''type'') = None \<longrightarrow>
      map_of (params_before_sign now pid kwargs) (ascii ''type'') = Some (PStr (ascii ''alipay'')))
   \<and> (kwargs (ascii ''out_trade_no'') = None \<longrightarrow>
      map_of (params_before_sign now pid kwargs) (ascii ''out_trade_no'')
        = Some (PStr (ascii ''TEST'' @ py_str (PInt now))))"
proof -
  have "map_of (default_params now pid kwargs) (ascii ''type'')
          = Some (kwargs_get kwargs (ascii ''type'') (PStr (ascii ''alipay'')))"
    by (simp add: default_params_def ascii_def)
  moreover have "map_of (default_params now pid kwargs) (ascii ''out_trade_no'')
          = Some (kwargs_get kwargs (ascii ''out_trade_no'')
                    (PStr (ascii ''TEST'' @ py_str (PInt now))))"
    by (simp add: default_params_def ascii_def del: py_str.simps)
  ultimately show ?thesis
    using params_before_sign_cases [of now pid kwargs]
    by (auto simp: kwargs_get_def simp del: py_str.simps)
qed

lemma generate_payment_url_valid:
  assumes "valid_text (py_str pid)" "valid_text merchant_key" "valid_kwargs kwargs"
  shows "\<exists>sign. generate_sign (params_before_sign now pid kwargs) merchant_key = Inr sign
           \<and> length sign = 32 \<and> list_all lower_hex sign
           \<and> urlencode (params_before_sign now pid kwargs @ [(ascii ''sign'', PStr sign)])
               = Inr (query_of (params_before_sign now pid kwargs) @ ascii ''&sign='' @ sign)
           \<and> generate_payment_url now base_url pid merchant_key kwargs
               = Inr (base_url @ ascii ''/submit?'' @ query_of (params_before_sign now pid kwargs)
                        @ ascii ''&sign='' @ sign,
                      params_before_sign now pid kwargs @ [(ascii ''sign'', PStr sign)])"
proof -
  let ?P = "params_before_sign now pid kwargs"
  have wf: "wf_dict ?P" using assms(1,3) by (rule wf_params_before_sign)
  from generate_sign_valid [OF wf assms(2)] obtain sign where
    s: "generate_sign ?P merchant_key = Inr sign" "length sign = 32" "list_all lower_hex sign"
    by blast
  have ne: "?P \<noteq> []"
    using params_before_sign_cases [of now pid kwargs] by (auto simp: default_params_def)
  have u: "urlencode (?P @ [(ascii ''sign'', PStr sign)])
             = Inr (query_of ?P @ ascii ''&sign='' @ sign)"
    using wf ne s(3) by (rule urlencode_snoc_sign)
  have "dict_set ?P (ascii ''sign'') (PStr sign) = ?P @ [(ascii ''sign'', PStr sign)]"
    using sign_not_in_params_before_sign by (rule dict_set_fresh)
  with s u show ?thesis
    by (simp add: generate_payment_url_def Let_def)
qed

section \<open>The URL builder of \<^verbatim>\<open>generate_payment_url.py\<close>\<close>

lemma sign_str_v1_valid: "wf_dict p \<Longrightarrow> valid_text (sign_str_v1 p)"
proof -
  assume "wf_dict p"
  then have "list_all valid_text (map (\<lambda>(k, v). k @ ascii ''='' @ py_str v) (sort_key fst p))"
    by (auto simp: wf_dict_def list_all_iff)
  then show ?thesis by (simp add: sign_str_v1_def valid_text_join)
qed

lemma generate_sign_v1_valid:
  assumes "wf_dict p" "valid_text K"
  shows "\<exists>sign. generate_sign_v1 p K = Inr sign \<and> length sign = 32 \<and> list_all lower_hex sign"
  using signature_is_md5_hex_aux [OF sign_str_v1_valid [OF assms(1)] assms(2)]
  by (simp add: generate_sign_v1_def lower_hex_hexdigest)

lemma wf_params_v1:
  assumes "case amount of None \<Rightarrow> True | Some v \<Rightarrow> valid_text (py_str v)"
    and "case product_name of None \<Rightarrow> True | Some v \<Rightarrow> valid_text (py_str v)"
  shows "wf_dict (params_v1 now amount product_name)"
  using assms
  by (simp add: wf_dict_def params_v1_def scalar_def valid_text_digits10 PID_def
      split: option.splits)

lemma keys_params_v1:
  "map fst (params_v1 now amount product_name) =
     [ascii ''pid'', ascii ''type'', ascii ''out_trade_no'', ascii ''notify_url'',
      ascii ''return_url'', ascii ''name'', ascii ''money'']"
  by (simp add: params_v1_def)

lemma dict_set_params_v1:
  "dict_set (dict_set (params_v1 now amount product_name) (ascii ''sign'') s)
            (ascii ''sign_type'') t
   = params_v1 now amount product_name @ [(ascii ''sign'', s), (ascii ''sign_type'', t)]"
proof -
  have 1: "ascii ''sign'' \<notin> set (map fst (params_v1 now amount product_name))"
    by (simp only: keys_params_v1) (simp add: ascii_def)
  have 2: "ascii ''sign_type'' \<notin> set (map fst (params_v1 now amount product_name))"
    by (simp only: keys_params_v1) (simp add: ascii_def)
  have 3: "ascii ''sign_type'' \<noteq> ascii ''sign''" by (simp add: ascii_def)
  from 1 have "dict_set (params_v1 now amount product_name) (ascii ''sign'') s
               = params_v1 now amount product_name @ [(ascii ''sign'', s)]"
    by (intro dict_set_fresh) simp
  moreover from 2 3 have "ascii ''sign_type''
      \<notin> fst ` set (params_v1 now amount product_name @ [(ascii ''sign'', s)])"
    by simp
  ultimately show ?thesis by (simp add: dict_set_fresh)
qed

lemma urlencode_snoc_sign_v1:
  assumes "wf_dict p" "p \<noteq> []" "list_all lower_hex sign"
  shows "urlencode (p @ [(ascii ''sign'', PStr sign), (ascii ''sign_type'', PStr (ascii ''MD5''))])
         = Inr (query_of p @ ascii ''&sign='' @ sign @ ascii ''&sign_type=MD5'')"
proof -
  let ?t = "[(ascii ''sign_type'', PStr (ascii ''MD5''))]"
  have wf: "wf_dict ((p @ [(ascii ''sign'', PStr sign)]) @ ?t)"
    using assms(1) valid_text_lower_hex [OF assms(3)] by (simp add: wf_dict_def)
  have "query_of ((p @ [(ascii ''sign'', PStr sign)]) @ ?t)
        = query_of (p @ [(ascii ''sign'', PStr sign)]) @ ascii ''&'' @ query_of ?t"
    by (rule query_of_append) simp_all
  moreover have "query_of (p @ [(ascii ''sign'', PStr sign)]) = query_of p @ ascii ''&sign='' @ sign"
    using urlencode_snoc_sign [OF assms] urlencode_valid [of "p @ [(ascii ''sign'', PStr sign)]"]
      assms(1) valid_text_lower_hex [OF assms(3)]
    by (simp add: wf_dict_def)
  moreover have "ascii ''&'' @ ascii ''sign_type=MD5'' = ascii ''&sign_type=MD5''"
    by (simp add: ascii_def)
  ultimately have "query_of ((p @ [(ascii ''sign'', PStr sign)]) @ ?t)
        = query_of p @ ascii ''&sign='' @ sign @ ascii ''&sign_type=MD5''"
    by (simp add: query_of_sign_type)
  with urlencode_valid [OF wf] show ?thesis by simp
qed

lemma generate_payment_url_v1_valid:
  assumes "case amount of None \<Rightarrow> True | Some v \<Rightarrow> valid_text (py_str v)"
    and "case product_name of None \<Rightarrow> True | Some v \<Rightarrow> valid_text (py_str v)"
  shows "\<exists>sign. generate_sign_v1 (params_v1 now amount product_name) KEY = Inr sign
           \<and> length sign = 32 \<and> list_all lower_hex sign
           \<and> urlencode (params_v1 now amount product_name
                          @ [(ascii ''sign'', PStr sign), (ascii ''sign_type'', PStr (ascii ''MD5''))])
               = Inr (query_of (params_v1 now amount product_name)
                        @ ascii ''&sign='' @ sign @ ascii ''&sign_type=MD5'')
           \<and> generate_payment_url_v1 now amount product_name
               = Inr (ascii ''http://localhost:8080'' @ ascii ''/submit?''
                        @ query_of (params_v1 now amount product_name)
                        @ ascii ''&sign='' @ sign @ ascii ''&sign_type=MD5'',
                      params_v1 now amount product_name
                        @ [(ascii ''sign'', PStr sign), (ascii ''sign_type'', PStr (ascii ''MD5''))])"
proof -
  let ?P = "params_v1 now amount product_name"
  have wf: "wf_dict ?P" using assms by (rule wf_params_v1)
  have K: "valid_text KEY" by (simp add: KEY_def)
  from generate_sign_v1_valid [OF wf K] obtain sign where
    s: "generate_sign_v1 ?P KEY = Inr sign" "length sign = 32" "list_all lower_hex sign"
    by blast
  have ne: "?P \<noteq> []" by (simp add: params_v1_def)
  have u: "urlencode (?P @ [(ascii ''sign'', PStr sign), (ascii ''sign_type'', PStr (ascii ''MD5''))])
             = Inr (query_of ?P @ ascii ''&sign='' @ sign @ ascii ''&sign_type=MD5'')"
    using wf ne s(3) by (rule urlencode_snoc_sign_v1)
  have b: "BASE_URL @ ascii ''?'' = ascii ''http://localhost:8080'' @ ascii ''/submit?''"
    by (simp add: BASE_URL_def ascii_def)
  have "generate_payment_url_v1 now amount product_name
        = Inr ((BASE_URL @ ascii ''?'') @ query_of ?P @ ascii ''&sign='' @ sign
                 @ ascii ''&sign_type=MD5'',
               ?P @ [(ascii ''sign'', PStr sign), (ascii ''sign_type'', PStr (ascii ''MD5''))])"
    using s(1) u by (simp add: generate_payment_url_v1_def Let_def dict_set_params_v1)
  with s u show ?thesis by (simp only: b append_assoc) blast
qed

lemma example_params_before_sign:
  "params_before_sign 1700000000 (PStr (ascii ''1001003549245339'')) Map.empty
   = example_P @ [(ascii ''sign_type'', PStr (ascii ''MD5''))]"
  by (simp add: params_before_sign_def with_sitename_def default_params_def kwargs_get_def
      example_P_def digits10.simps ascii_def)

lemma example_params_v1:
  "params_v1 1700000000 None None = example_P"
  by (simp add: params_v1_def example_P_def PID_def digits10.simps ascii_def)

lemma example_query_v1:
  "query_of example_P
   = ascii ''pid=1001003549245339&type=alipay&out_trade_no=TEST1700000000&notify_url=http%3A%2F%2Fexample.com%2Fnotify&return_url=http%3A%2F%2Fexample.com%2Freturn&name=%E6%B5%8B%E8%AF%95%E5%95%86%E5%93%81&money=0.01''"
  by (simp add: query_of_def example_P_def qp_def utf8_def utf8_char_def qp_byte_def
      quote_byte_def always_safe_def hex_upper_def ascii_def)

lemma example_query_v2:
  "query_of (example_P @ [(ascii ''sign_type'', PStr (ascii ''MD5''))])
   = ascii ''pid=1001003549245339&type=alipay&out_trade_no=TEST1700000000&notify_url=http%3A%2F%2Fexample.com%2Fnotify&return_url=http%3A%2F%2Fexample.com%2Freturn&name=%E6%B5%8B%E8%AF%95%E5%95%86%E5%93%81&money=0.01&sign_type=MD5''"
  by (simp add: query_of_def example_P_def qp_def utf8_def utf8_char_def qp_byte_def
      quote_byte_def always_safe_def hex_upper_def ascii_def)

lemma example_sign_str_v2:
  "sign_str (example_P @ [(ascii ''sign_type'', PStr (ascii ''MD5''))]) = Inr example_base"
  by (simp add: sign_str_def sorted_keys_def filtered_def reserved_def dict_get_def
      example_P_def example_base_def ascii_def)

section \<open>Reserved keys\<close>

lemma sign_str_dict_set_reserved:
  "k \<in> set reserved \<Longrightarrow> sign_str (dict_set p k v) = sign_str (dict_del p k)"
  by (rule sign_str_cong) (rule filtered_dict_set_reserved)

lemma sign_str_dict_del_reserved:
  "k \<in> set reserved \<Longrightarrow> sign_str (dict_del p k) = sign_str p"
  by (rule sign_str_cong) (rule filtered_dict_del_reserved)

lemma params_v1_not_reserved:
  "set (map fst (params_v1 now amount product_name)) \<inter> set reserved = {}"
  by (simp only: keys_params_v1) (simp add: reserved_def ascii_def)

lemma generate_payment_url_v1_unfold:
  "generate_payment_url_v1 now amount product_name =
     (case generate_sign_v1 (params_v1 now amount product_name) KEY of
        Inl e \<Rightarrow> Inl e
      | Inr sign \<Rightarrow>
          (case urlencode (params_v1 now amount product_name
                            @ [(ascii ''sign'', PStr sign),
                               (ascii ''sign_type'', PStr (ascii ''MD5''))]) of
             Inl e \<Rightarrow> Inl e
           | Inr query_string \<Rightarrow>
               Inr (BASE_URL @ ascii ''?'' @ query_string,
                    params_v1 now amount product_name
                      @ [(ascii ''sign'', PStr sign),
                         (ascii ''sign_type'', PStr (ascii ''MD5''))])))"
  by (simp add: generate_payment_url_v1_def Let_def dict_set_params_v1 split: sum.splits)

text \<open>
  C2, as amended. The signer of \<^verbatim>\<open>generate_payment_url_v2.py\<close> and
  \<^verbatim>\<open>test_payment.py\<close> gives the same canonical string and the same signature with an
  entry under \<open>sign\<close> or \<open>sign_type\<close>, whatever its value, as without it. The signer of
  \<^verbatim>\<open>generate_payment_url.py\<close> has no filter; its builder signs a dictionary of seven
  fixed keys, none of them reserved, and adds \<open>sign\<close> and \<open>sign_type\<close> after signing,
  so that no reserved key enters its canonical string either.
\<close>

theorem reserved_keys_never_signed:
  "k \<in> set reserved \<Longrightarrow>
     sign_str (dict_set p k v) = sign_str (dict_del p k)
     \<and> sign_str (dict_set p k v) = sign_str p
     \<and> generate_sign (dict_set p k v) K = generate_sign (dict_del p k) K
     \<and> generate_sign (dict_set p k v) K = generate_sign p K
     \<and> set (map fst (params_v1 now amount product_name)) \<inter> set reserved = {}
     \<and> generate_payment_url_v1 now amount product_name =
         (case generate_sign_v1 (params_v1 now amount product_name) KEY of
            Inl e \<Rightarrow> Inl e
          | Inr sign \<Rightarrow>
              (case urlencode (params_v1 now amount product_name
                                @ [(ascii ''sign'', PStr sign),
                                   (ascii ''sign_type'', PStr (ascii ''MD5''))]) of
                 Inl e \<Rightarrow> Inl e
               | Inr query_string \<Rightarrow>
                   Inr (BASE_URL @ ascii ''?'' @ query_string,
                        params_v1 now amount product_name
                          @ [(ascii ''sign'', PStr sign),
                             (ascii ''sign_type'', PStr (ascii ''MD5''))])))"
proof -
  assume k: "k \<in> set reserved"
  have 1: "sign_str (dict_set p k v) = sign_str (dict_del p k)"
    using k by (rule sign_str_dict_set_reserved)
  have 2: "sign_str (dict_del p k) = sign_str p"
    using k by (rule sign_str_dict_del_reserved)
  have 3: "generate_sign (dict_set p k v) K = generate_sign (dict_del p k) K"
    using 1 by (simp add: generate_sign_def)
  have 4: "generate_sign (dict_set p k v) K = generate_sign p K"
    using 1 2 by (simp add: generate_sign_def)
  from 1 2 3 4 params_v1_not_reserved [of now amount product_name]
    generate_payment_url_v1_unfold [of now amount product_name]
  show ?thesis by (simp only:)
qed

theorem reserved_keys_never_signed_witness:
  "ascii ''sign_type'' \<in> set reserved
   \<and> sign_str (example_P @ [(ascii ''sign_type'', PStr (ascii ''MD5''))]) = Inr example_base
   \<and> sign_str example_P = Inr example_base
   \<and> generate_sign (example_P @ [(ascii ''sign_type'', PStr (ascii ''MD5''))]) example_K
       = generate_sign example_P example_K
   \<and> set (map fst (params_v1 1700000000 None None)) \<inter> set reserved = {}"
proof -
  have r: "ascii ''sign_type'' \<in> set reserved" by (simp add: reserved_def)
  have d: "dict_set example_P (ascii ''sign_type'') (PStr (ascii ''MD5''))
           = example_P @ [(ascii ''sign_type'', PStr (ascii ''MD5''))]"
    by (rule dict_set_fresh) (simp add: example_P_def ascii_def)
  note t = reserved_keys_never_signed [OF r, of example_P "PStr (ascii ''MD5'')" example_K
      1700000000 None None, unfolded d]
  from t have 1: "sign_str (example_P @ [(ascii ''sign_type'', PStr (ascii ''MD5''))])
                  = sign_str example_P" by blast
  from t have 2: "generate_sign (example_P @ [(ascii ''sign_type'', PStr (ascii ''MD5''))]) example_K
                  = generate_sign example_P example_K" by blast
  from t have 3: "set (map fst (params_v1 1700000000 None None)) \<inter> set reserved = {}"
    by blast
  from r 1 2 3 example_sign_str show ?thesis by (simp only:)
qed

section \<open>Text that does not encode\<close>

lemma md5_cases:
  "md5 x = (if valid_text x then Inr (hexdigest (md5_digest (utf8 x))) else Inl UnicodeEncodeError)"
  by (simp add: md5_valid md5_invalid)

lemma generate_sign_cases:
  "generate_sign p K = Inl UnicodeEncodeError \<or> (\<exists>s. generate_sign p K = Inr s \<and> valid_text K)"
  by (auto simp: generate_sign_def sign_str_total md5_cases)

lemma generate_sign_v1_cases:
  "generate_sign_v1 p K = Inl UnicodeEncodeError \<or> (\<exists>s. generate_sign_v1 p K = Inr s)"
  by (auto simp: generate_sign_v1_def md5_cases)

lemma quote_invalid: "\<not> valid_text s \<Longrightarrow> quote s safe = Inl UnicodeEncodeError"
  by (auto simp: quote_def utf8_encode_error)

lemma quote_plus_invalid: "\<not> valid_text s \<Longrightarrow> quote_plus s = Inl UnicodeEncodeError"
  by (simp add: quote_plus_def quote_invalid)

lemma urlencode_pair_invalid:
  "\<not> (valid_text k \<and> valid_text (py_str v)) \<Longrightarrow> urlencode_pair (k, v) = Inl UnicodeEncodeError"
  by (cases "valid_text k") (auto simp: urlencode_pair_def quote_plus_invalid quote_plus_valid)

lemma traverse_urlencode_pair_invalid:
  "\<not> wf_dict p \<Longrightarrow> traverse urlencode_pair p = Inl UnicodeEncodeError"
proof (induction p)
  case Nil
  then show ?case by (simp add: wf_dict_def)
next
  case (Cons e p)
  obtain k v where e: "e = (k, v)" by (cases e)
  show ?case
  proof (cases "valid_text k \<and> valid_text (py_str v)")
    case True
    with Cons.prems e have "\<not> wf_dict p" by (simp add: wf_dict_def)
    with Cons.IH True e show ?thesis by (simp add: urlencode_pair_valid)
  next
    case False
    then show ?thesis using e by (simp add: urlencode_pair_invalid)
  qed
qed

lemma urlencode_invalid: "\<not> wf_dict p \<Longrightarrow> urlencode p = Inl UnicodeEncodeError"
  by (simp add: urlencode_def traverse_urlencode_pair_invalid)

lemma valid_text_falsy: "\<not> truthy v \<Longrightarrow> valid_text (py_str v)"
  by (cases v) (auto simp: valid_text_digits10 digits10.simps scalar_def)

lemma wf_params_before_sign_iff:
  "wf_dict (params_before_sign now pid kwargs) \<longleftrightarrow> valid_text (py_str pid) \<and> valid_kwargs kwargs"
proof
  assume "valid_text (py_str pid) \<and> valid_kwargs kwargs"
  then show "wf_dict (params_before_sign now pid kwargs)"
    by (simp add: wf_params_before_sign)
next
  assume wf: "wf_dict (params_before_sign now pid kwargs)"
  from params_before_sign_cases [of now pid kwargs]
  have sub: "set (default_params now pid kwargs) \<subseteq> set (params_before_sign now pid kwargs)"
    by auto
  with wf have d: "wf_dict (default_params now pid kwargs)"
    by (auto simp: wf_dict_def list_all_iff)
  then have pid: "valid_text (py_str pid)"
    by (simp add: wf_dict_def default_params_def)
  have f: "valid_text (py_str v)" if "kwargs k = Some v"
    "k \<in> {ascii ''type'', ascii ''out_trade_no'', ascii ''notify_url'', ascii ''return_url'',
           ascii ''name'', ascii ''money''}" for k v
    using d that by (auto simp: wf_dict_def default_params_def kwargs_get_def)
  have s: "valid_text (py_str v)" if v: "kwargs (ascii ''sitename'') = Some v" for v
  proof (cases "truthy v")
    case True
    have "ascii ''sitename'' \<notin> fst ` set (default_params now pid kwargs)"
      using keys_default_params [of now pid kwargs]
      by (simp only: set_map [symmetric]) (simp add: ascii_def)
    with v True
    have "(ascii ''sitename'', v) \<in> set (params_before_sign now pid kwargs)"
      by (simp add: params_before_sign_def with_sitename_def dict_set_fresh)
    with wf show ?thesis by (auto simp: wf_dict_def list_all_iff)
  next
    case False
    then show ?thesis by (rule valid_text_falsy)
  qed
  from f s have "valid_kwargs kwargs"
    by (auto simp: valid_kwargs_def order_fields_def split: option.splits)
  with pid show "valid_text (py_str pid) \<and> valid_kwargs kwargs" by simp
qed

lemma generate_payment_url_invalid:
  assumes "\<not> (valid_text (py_str pid) \<and> valid_text merchant_key \<and> valid_kwargs kwargs)"
  shows "generate_payment_url now base_url pid merchant_key kwargs = Inl UnicodeEncodeError"
proof -
  let ?P = "params_before_sign now pid kwargs"
  from generate_sign_cases [of ?P merchant_key] show ?thesis
  proof
    assume "generate_sign ?P merchant_key = Inl UnicodeEncodeError"
    then show ?thesis by (simp add: generate_payment_url_def)
  next
    assume "\<exists>s. generate_sign ?P merchant_key = Inr s \<and> valid_text merchant_key"
    then obtain s where s: "generate_sign ?P merchant_key = Inr s" "valid_text merchant_key"
      by blast
    with assms have "\<not> wf_dict ?P" by (simp add: wf_params_before_sign_iff)
    then have "\<not> wf_dict (?P @ [(ascii ''sign'', PStr s)])" by simp
    then have "urlencode (?P @ [(ascii ''sign'', PStr s)]) = Inl UnicodeEncodeError"
      by (rule urlencode_invalid)
    moreover have "dict_set ?P (ascii ''sign'') (PStr s) = ?P @ [(ascii ''sign'', PStr s)]"
      using sign_not_in_params_before_sign by (rule dict_set_fresh)
    ultimately show ?thesis using s(1) by (simp add: generate_payment_url_def Let_def)
  qed
qed

lemma wf_params_v1_iff:
  "wf_dict (params_v1 now amount product_name) \<longleftrightarrow>
     (case amount of None \<Rightarrow> True | Some v \<Rightarrow> valid_text (py_str v))
     \<and> (case product_name of None \<Rightarrow> True | Some v \<Rightarrow> valid_text (py_str v))"
  by (auto simp: wf_dict_def params_v1_def scalar_def valid_text_digits10 PID_def
      split: option.splits)

lemma generate_payment_url_v1_invalid:
  assumes "\<not> ((case amount of None \<Rightarrow> True | Some v \<Rightarrow> valid_text (py_str v))
     \<and> (case product_name of None \<Rightarrow> True | Some v \<Rightarrow> valid_text (py_str v)))"
  shows "generate_payment_url_v1 now amount product_name = Inl UnicodeEncodeError"
proof -
  let ?P = "params_v1 now amount product_name"
  from assms have nwf: "\<not> wf_dict ?P" by (simp add: wf_params_v1_iff)
  from generate_sign_v1_cases [of ?P KEY] show ?thesis
  proof
    assume "generate_sign_v1 ?P KEY = Inl UnicodeEncodeError"
    then show ?thesis by (simp add: generate_payment_url_v1_def)
  next
    assume "\<exists>s. generate_sign_v1 ?P KEY = Inr s"
    then obtain s where s: "generate_sign_v1 ?P KEY = Inr s" by blast
    from nwf have "\<not> wf_dict (?P @ [(ascii ''sign'', PStr s),
                                      (ascii ''sign_type'', PStr (ascii ''MD5''))])"
      by simp
    then have "urlencode (?P @ [(ascii ''sign'', PStr s),
                                (ascii ''sign_type'', PStr (ascii ''MD5''))])
               = Inl UnicodeEncodeError"
      by (rule urlencode_invalid)
    with s show ?thesis by (simp add: generate_payment_url_v1_unfold)
  qed
qed

section \<open>What the parameter sets hold\<close>

lemma sitename_not_default:
  "ascii ''sitename'' \<notin> fst ` set (default_params now pid kwargs)"
  using keys_default_params [of now pid kwargs]
  by (simp only: set_map [symmetric]) (simp add: ascii_def)

lemma params_before_sign_eq:
  "params_before_sign now pid kwargs =
     default_params now pid kwargs
     @ (case kwargs (ascii ''sitename'') of
          None \<Rightarrow> []
        | Some v \<Rightarrow> if truthy v then [(ascii ''sitename'', v)] else [])"
  by (simp add: params_before_sign_def with_sitename_def dict_set_fresh [OF sitename_not_default]
      split: option.splits)

lemma keys_params_before_sign:
  "map fst (params_before_sign now pid kwargs) =
     [ascii ''pid'', ascii ''type'', ascii ''out_trade_no'', ascii ''notify_url'',
      ascii ''return_url'', ascii ''name'', ascii ''money'', ascii ''sign_type'']
     @ (case kwargs (ascii ''sitename'') of
          None \<Rightarrow> []
        | Some v \<Rightarrow> if truthy v then [ascii ''sitename''] else [])"
  by (simp add: params_before_sign_eq keys_default_params split: option.splits)

lemma lookup_default_params:
  "map_of (default_params now pid kwargs) (ascii ''pid'') = Some pid"
  "map_of (default_params now pid kwargs) (ascii ''type'')
     = Some (case kwargs (ascii ''type'') of None \<Rightarrow> PStr (ascii ''alipay'') | Some v \<Rightarrow> v)"
  "map_of (default_params now pid kwargs) (ascii ''out_trade_no'')
     = Some (case kwargs (ascii ''out_trade_no'') of
               None \<Rightarrow> PStr (ascii ''TEST'' @ py_str (PInt now)) | Some v \<Rightarrow> v)"
  "map_of (default_params now pid kwargs) (ascii ''notify_url'')
     = Some (case kwargs (ascii ''notify_url'') of
               None \<Rightarrow> PStr (ascii ''http://example.com/notify'') | Some v \<Rightarrow> v)"
  "map_of (default_params now pid kwargs) (ascii ''return_url'')
     = Some (case kwargs (ascii ''return_url'') of
               None \<Rightarrow> PStr (ascii ''http://example.com/return'') | Some v \<Rightarrow> v)"
  "map_of (default_params now pid kwargs) (ascii ''name'')
     = Some (case kwargs (ascii ''name'') of
               None \<Rightarrow> PStr [27979, 35797, 21830, 21697] | Some v \<Rightarrow> v)"
  "map_of (default_params now pid kwargs) (ascii ''money'')
     = Some (PStr (py_str (case kwargs (ascii ''money'') of
                             None \<Rightarrow> PStr (ascii ''0.01'') | Some v \<Rightarrow> v)))"
  "map_of (default_params now pid kwargs) (ascii ''sign_type'') = Some (PStr (ascii ''MD5''))"
  "map_of (default_params now pid kwargs) (ascii ''sitename'') = None"
  by (simp_all add: default_params_def kwargs_get_def ascii_def del: py_str.simps
      split: option.splits)

lemma lookup_params_before_sign:
  "map_of (params_before_sign now pid kwargs) (ascii ''pid'') = Some pid"
  "map_of (params_before_sign now pid kwargs) (ascii ''type'')
     = Some (case kwargs (ascii ''type'') of None \<Rightarrow> PStr (ascii ''alipay'') | Some v \<Rightarrow> v)"
  "map_of (params_before_sign now pid kwargs) (ascii ''out_trade_no'')
     = Some (case kwargs (ascii ''out_trade_no'') of
               None \<Rightarrow> PStr (ascii ''TEST'' @ py_str (PInt now)) | Some v \<Rightarrow> v)"
  "map_of (params_before_sign now pid kwargs) (ascii ''notify_url'')
     = Some (case kwargs (ascii ''notify_url'') of
               None \<Rightarrow> PStr (ascii ''http://example.com/notify'') | Some v \<Rightarrow> v)"
  "map_of (params_before_sign now pid kwargs) (ascii ''return_url'')
     = Some (case kwargs (ascii ''return_url'') of
               None \<Rightarrow> PStr (ascii ''http://example.com/return'') | Some v \<Rightarrow> v)"
  "map_of (params_before_sign now pid kwargs) (ascii ''name'')
     = Some (case kwargs (ascii ''name'') of
               None \<Rightarrow> PStr [27979, 35797, 21830, 21697] | Some v \<Rightarrow> v)"
  "map_of (params_before_sign now pid kwargs) (ascii ''money'')
     = Some (PStr (py_str (case kwargs (ascii ''money'') of
                             None \<Rightarrow> PStr (ascii ''0.01'') | Some v \<Rightarrow> v)))"
  "map_of (params_before_sign now pid kwargs) (ascii ''sign_type'') = Some (PStr (ascii ''MD5''))"
  "map_of (params_before_sign now pid kwargs) (ascii ''sitename'')
     = (case kwargs (ascii ''sitename'') of
          None \<Rightarrow> None
        | Some v \<Rightarrow> if truthy v then Some v else None)"
  by (simp_all only: params_before_sign_eq map_of_append map_add_def lookup_default_params)
     (simp_all split: option.splits)

lemma lookup_params_v1:
  "map_of (params_v1 now amount product_name) (ascii ''pid'') = Some (PStr PID)"
  "map_of (params_v1 now amount product_name) (ascii ''type'') = Some (PStr (ascii ''alipay''))"
  "map_of (params_v1 now amount product_name) (ascii ''out_trade_no'')
     = Some (PStr (ascii ''TEST'' @ py_str (PInt now)))"
  "map_of (params_v1 now amount product_name) (ascii ''notify_url'')
     = Some (PStr (ascii ''http://example.com/notify''))"
  "map_of (params_v1 now amount product_name) (ascii ''return_url'')
     = Some (PStr (ascii ''http://example.com/return''))"
  "map_of (params_v1 now amount product_name) (ascii ''name'')
     = Some (case product_name of None \<Rightarrow> PStr [27979, 35797, 21830, 21697] | Some v \<Rightarrow> v)"
  "map_of (params_v1 now amount product_name) (ascii ''money'')
     = Some (case amount of None \<Rightarrow> PStr (ascii ''0.01'') | Some v \<Rightarrow> v)"
  by (simp_all add: params_v1_def ascii_def del: py_str.simps)

text \<open>
  C6 as stated fails on an argument that holds a lone surrogate: \<open>str.encode\<close> raises
  \<open>UnicodeEncodeError\<close> and no URL is returned, from either builder.
\<close>

theorem payment_url_surrogate_raises:
  "generate_payment_url 1700000000 (ascii ''http://localhost:8080'')
     (PStr (ascii ''1001003549245339'')) example_K [ascii ''name'' \<mapsto> PStr [55296]]
     = Inl UnicodeEncodeError
   \<and> generate_payment_url_v1 1700000000 None (Some (PStr [55296])) = Inl UnicodeEncodeError"
proof -
  have "\<not> valid_kwargs [ascii ''name'' \<mapsto> PStr [55296]]"
    by (simp add: valid_kwargs_def order_fields_def scalar_def ascii_def)
  then have "generate_payment_url 1700000000 (ascii ''http://localhost:8080'')
     (PStr (ascii ''1001003549245339'')) example_K [ascii ''name'' \<mapsto> PStr [55296]]
     = Inl UnicodeEncodeError"
    by (intro generate_payment_url_invalid) simp
  moreover have "generate_payment_url_v1 1700000000 None (Some (PStr [55296]))
     = Inl UnicodeEncodeError"
    by (rule generate_payment_url_v1_invalid) (simp add: scalar_def)
  ultimately show ?thesis by simp
qed

text \<open>
  C6, as amended. When \<open>pid\<close>, the merchant key and the order fields are encodable text
  (no lone surrogate), \<open>generate_payment_url\<close> returns the base URL, then \<open>/submit?\<close>,
  then the \<open>urlencode\<close> of the whole returned parameter set, in which \<open>sign_type = MD5\<close>
  and the 32-character signature under \<open>sign\<close> (the signature of the set before \<open>sign\<close>
  was added) are encoded like every other entry; otherwise it raises
  \<open>UnicodeEncodeError\<close>. The set holds \<open>pid\<close> and each order field as supplied
  (\<open>money\<close> through \<open>str\<close>, \<open>sitename\<close> only when truthy); a field left out takes its
  default: \<open>type\<close> is \<open>alipay\<close>, \<open>out_trade_no\<close> is \<open>TEST\<close> followed by the clock
  reading. The builder of \<^verbatim>\<open>generate_payment_url.py\<close> does the same with its constant
  base URL, its fixed \<open>type\<close> and \<open>out_trade_no\<close>, and its two arguments.
\<close>

theorem payment_url_shape:
  "(valid_text (py_str pid) \<and> valid_text merchant_key \<and> valid_kwargs kwargs \<longrightarrow>
     (\<exists>sign. generate_sign (params_before_sign now pid kwargs) merchant_key = Inr sign
        \<and> length sign = 32
        \<and> urlencode (params_before_sign now pid kwargs @ [(ascii ''sign'', PStr sign)])
            = Inr (query_of (params_before_sign now pid kwargs) @ ascii ''&sign='' @ sign)
        \<and> generate_payment_url now base_url pid merchant_key kwargs
            = Inr (base_url @ ascii ''/submit?'' @ query_of (params_before_sign now pid kwargs)
                     @ ascii ''&sign='' @ sign,
                   params_before_sign now pid kwargs @ [(ascii ''sign'', PStr sign)])))
   \<and> (\<not> (valid_text (py_str pid) \<and> valid_text merchant_key \<and> valid_kwargs kwargs) \<longrightarrow>
        generate_payment_url now base_url pid merchant_key kwargs = Inl UnicodeEncodeError)
   \<and> map fst (params_before_sign now pid kwargs) =
        [ascii ''pid'', ascii ''type'', ascii ''out_trade_no'', ascii ''notify_url'',
         ascii ''return_url'', ascii ''name'', ascii ''money'', ascii ''sign_type'']
        @ (case kwargs (ascii ''sitename'') of
             None \<Rightarrow> []
           | Some v \<Rightarrow> if truthy v then [ascii ''sitename''] else [])
   \<and> map_of (params_before_sign now pid kwargs) (ascii ''pid'') = Some pid
   \<and> map_of (params_before_sign now pid kwargs) (ascii ''type'')
        = Some (case kwargs (ascii ''type'') of None \<Rightarrow> PStr (ascii ''alipay'') | Some v \<Rightarrow> v)
   \<and> map_of (params_before_sign now pid kwargs) (ascii ''out_trade_no'')
        = Some (case kwargs (ascii ''out_trade_no'') of
                  None \<Rightarrow> PStr (ascii ''TEST'' @ py_str (PInt now)) | Some v \<Rightarrow> v)
   \<and> map_of (params_before_sign now pid kwargs) (ascii ''notify_url'')
        = Some (case kwargs (ascii ''notify_url'') of
                  None \<Rightarrow> PStr (ascii ''http://example.com/notify'') | Some v \<Rightarrow> v)
   \<and> map_of (params_before_sign now pid kwargs) (ascii ''return_url'')
        = Some (case kwargs (ascii ''return_url'') of
                  None \<Rightarrow> PStr (ascii ''http://example.com/return'') | Some v \<Rightarrow> v)
   \<and> map_of (params_before_sign now pid kwargs) (ascii ''name'')
        = Some (case kwargs (ascii ''name'') of
                  None \<Rightarrow> PStr [27979, 35797, 21830, 21697] | Some v \<Rightarrow> v)
   \<and> map_of (params_before_sign now pid kwargs) (ascii ''money'')
        = Some (PStr (py_str (case kwargs (ascii ''money'') of
                                None \<Rightarrow> PStr (ascii ''0.01'') | Some v \<Rightarrow> v)))
   \<and> map_of (params_before_sign now pid kwargs) (ascii ''sign_type'') = Some (PStr (ascii ''MD5''))
   \<and> map_of (params_before_sign now pid kwargs) (ascii ''sitename'')
        = (case kwargs (ascii ''sitename'') of
             None \<Rightarrow> None
           | Some v \<Rightarrow> if truthy v then Some v else None)
   \<and> (\<exists>a b. query_of (params_before_sign now pid kwargs) = a @ ascii ''&sign_type=MD5'' @ b)
   \<and> ((case amount of None \<Rightarrow> True | Some v \<Rightarrow> valid_text (py_str v))
       \<and> (case product_name of None \<Rightarrow> True | Some v \<Rightarrow> valid_text (py_str v)) \<longrightarrow>
     (\<exists>sign. generate_sign_v1 (params_v1 now amount product_name) KEY = Inr sign
        \<and> length sign = 32
        \<and> urlencode (params_v1 now amount product_name
                       @ [(ascii ''sign'', PStr sign), (ascii ''sign_type'', PStr (ascii ''MD5''))])
            = Inr (query_of (params_v1 now amount product_name)
                     @ ascii ''&sign='' @ sign @ ascii ''&sign_type=MD5'')
        \<and> generate_payment_url_v1 now amount product_name
            = Inr (ascii ''http://localhost:8080'' @ ascii ''/submit?''
                     @ query_of (params_v1 now amount product_name)
                     @ ascii ''&sign='' @ sign @ ascii ''&sign_type=MD5'',
                   params_v1 now amount product_name
                     @ [(ascii ''sign'', PStr sign), (ascii ''sign_type'', PStr (ascii ''MD5''))])))
   \<and> (\<not> ((case amount of None \<Rightarrow> True | Some v \<Rightarrow> valid_text (py_str v))
       \<and> (case product_name of None \<Rightarrow> True | Some v \<Rightarrow> valid_text (py_str v))) \<longrightarrow>
        generate_payment_url_v1 now amount product_name = Inl UnicodeEncodeError)
   \<and> map fst (params_v1 now amount product_name) =
        [ascii ''pid'', ascii ''type'', ascii ''out_trade_no'', ascii ''notify_url'',
         ascii ''return_url'', ascii ''name'', ascii ''money'']
   \<and> map_of (params_v1 now amount product_name) (ascii ''pid'') = Some (PStr PID)
   \<and> map_of (params_v1 now amount product_name) (ascii ''type'') = Some (PStr (ascii ''alipay''))
   \<and> map_of (params_v1 now amount product_name) (ascii ''out_trade_no'')
        = Some (PStr (ascii ''TEST'' @ py_str (PInt now)))
   \<and> map_of (params_v1 now amount product_name) (ascii ''name'')
        = Some (case product_name of None \<Rightarrow> PStr [27979, 35797, 21830, 21697] | Some v \<Rightarrow> v)
   \<and> map_of (params_v1 now amount product_name) (ascii ''money'')
        = Some (case amount of None \<Rightarrow> PStr (ascii ''0.01'') | Some v \<Rightarrow> v)"
proof -
  have v2: "\<exists>sign. generate_sign (params_before_sign now pid kwargs) merchant_key = Inr sign
        \<and> length sign = 32
        \<and> urlencode (params_before_sign now pid kwargs @ [(ascii ''sign'', PStr sign)])
            = Inr (query_of (params_before_sign now pid kwargs) @ ascii ''&sign='' @ sign)
        \<and> generate_payment_url now base_url pid merchant_key kwargs
            = Inr (base_url @ ascii ''/submit?'' @ query_of (params_before_sign now pid kwargs)
                     @ ascii ''&sign='' @ sign,
                   params_before_sign now pid kwargs @ [(ascii ''sign'', PStr sign)])"
    if "valid_text (py_str pid) \<and> valid_text merchant_key \<and> valid_kwargs kwargs"
    using generate_payment_url_valid [of pid merchant_key kwargs now base_url] that by blast
  have v1: "\<exists>sign. generate_sign_v1 (params_v1 now amount product_name) KEY = Inr sign
        \<and> length sign = 32
        \<and> urlencode (params_v1 now amount product_name
                       @ [(ascii ''sign'', PStr sign), (ascii ''sign_type'', PStr (ascii ''MD5''))])
            = Inr (query_of (params_v1 now amount product_name)
                     @ ascii ''&sign='' @ sign @ ascii ''&sign_type=MD5'')
        \<and> generate_payment_url_v1 now amount product_name
            = Inr (ascii ''http://localhost:8080'' @ ascii ''/submit?''
                     @ query_of (params_v1 now amount product_name)
                     @ ascii ''&sign='' @ sign @ ascii ''&sign_type=MD5'',
                   params_v1 now amount product_name
                     @ [(ascii ''sign'', PStr sign), (ascii ''sign_type'', PStr (ascii ''MD5''))])"
    if "(case amount of None \<Rightarrow> True | Some v \<Rightarrow> valid_text (py_str v))
       \<and> (case product_name of None \<Rightarrow> True | Some v \<Rightarrow> valid_text (py_str v))"
    using generate_payment_url_v1_valid [of amount product_name now] that by blast
  show ?thesis
    apply (intro conjI impI)
                        apply (erule v2)
                       apply (erule generate_payment_url_invalid)
                      apply (rule keys_params_before_sign)
                     apply (rule lookup_params_before_sign)+
            apply (rule query_of_params_before_sign)
           apply (rule v1, simp)
          apply (rule generate_payment_url_v1_invalid, simp)
         apply (rule keys_params_v1)
        apply (rule lookup_params_v1)+
    done
qed

section \<open>The deep-link test script\<close>

lemma deeplink_queries:
  "urlencode [(ascii ''amount'', AMOUNT), (ascii ''remark'', REMARK)]
     = Inr (ascii ''amount=1.23&remark=%E6%B5%8B%E8%AF%95%E8%AE%A2%E5%8D%95'')"
  "urlencode [(ascii ''qr_code_id'', QR_CODE_ID), (ascii ''amount'', AMOUNT), (ascii ''remark'', REMARK)]
     = Inr (ascii ''qr_code_id=fkx12345678901234&amount=1.23&remark=%E6%B5%8B%E8%AF%95%E8%AE%A2%E5%8D%95'')"
  "urlencode [(ascii ''qr_code_id'', QR_CODE_ID)] = Inr (ascii ''qr_code_id=fkx12345678901234'')"
  "urlencode [(ascii ''amount'', AMOUNT)] = Inr (ascii ''amount=1.23'')"
  "urlencode [(ascii ''qr_code_id'', QR_CODE_ID), (ascii ''amount'', PStr (ascii ''invalid''))]
     = Inr (ascii ''qr_code_id=fkx12345678901234&amount=invalid'')"
  by (simp_all add: urlencode_def urlencode_pair_def quote_plus_def quote_def
      quote_from_bytes_def quote_byte_def always_safe_def hex_upper_def utf8_char_def
      AMOUNT_def REMARK_def QR_CODE_ID_def ascii_def)

lemma link_test_perform:
  "urlencode params = Inr q \<Longrightarrow> link_test n params = perform (print_test n) (link_request q)"
  by (rule ext, rule ext)
     (simp add: link_test_def link_request_def BASE_URL_deeplink_def ascii_def)

lemma six_tests:
  "[test_default_qr_code_id, test_custom_qr_code_id, test_no_amount,
    test_missing_qr_code_id, test_invalid_amount, test_redirect_to_alipay]
   = map (\<lambda>(report, rq). perform report rq) (zip six_reports six_requests)"
proof -
  have "test_redirect_to_alipay = perform print_redirect (six_requests ! 5)"
    by (rule ext, rule ext)
       (simp add: test_redirect_to_alipay_def deeplink_queries(2), 
        simp add: six_requests_def BASE_URL_deeplink_def ascii_def)
  then show ?thesis
    by (simp add: test_default_qr_code_id_def test_custom_qr_code_id_def test_no_amount_def
      test_missing_qr_code_id_def test_invalid_amount_def
      link_test_perform [OF deeplink_queries(1)] link_test_perform [OF deeplink_queries(2)]
      link_test_perform [OF deeplink_queries(3)] link_test_perform [OF deeplink_queries(4)]
      link_test_perform [OF deeplink_queries(5)] six_requests_def six_reports_def)
qed

lemma run_step:
  "run_tests (perform report rq # ts) srv st =
     (case srv (length (requests st)) rq of
        Inl e \<Rightarrow> (Some e, st\<lparr>requests := requests st @ [rq]\<rparr>)
      | Inr r \<Rightarrow> run_tests ts srv (st\<lparr>requests := requests st @ [rq],
                                       out := out st @ [report (url rq) r]\<rparr>))"
  by (simp add: perform_def split: sum.splits)

lemma run_all:
  "(\<forall>j<length ps. \<exists>r. srv (length (requests st) + j) (snd (ps ! j)) = Inr r) \<Longrightarrow>
     \<exists>reports. length reports = length ps
       \<and> (\<forall>l\<in>set reports. \<exists>j<length ps. \<exists>u r. l = fst (ps ! j) u r)
       \<and> run_tests (map (\<lambda>(report, rq). perform report rq) ps) srv st
           = (None, st\<lparr>requests := requests st @ map snd ps, out := out st @ reports\<rparr>)"
proof (induction ps arbitrary: st)
  case Nil
  then show ?case by simp
next
  case (Cons p ps)
  obtain report rq where p: "p = (report, rq)" by (cases p)
  from Cons.prems obtain r where r: "srv (length (requests st)) rq = Inr r"
    using p by fastforce
  let ?st = "st\<lparr>requests := requests st @ [rq], out := out st @ [report (url rq) r]\<rparr>"
  have "\<forall>j<length ps. \<exists>r. srv (length (requests ?st) + j) (snd (ps ! j)) = Inr r"
  proof (intro allI impI)
    fix j assume "j < length ps"
    then have "Suc j < length (p # ps)" by simp
    with Cons.prems have "\<exists>r. srv (length (requests st) + Suc j) (snd ((p # ps) ! Suc j)) = Inr r"
      by blast
    then show "\<exists>r. srv (length (requests ?st) + j) (snd (ps ! j)) = Inr r" by simp
  qed
  from Cons.IH [OF this] obtain reports where
    reports: "length reports = length ps"
      "\<forall>l\<in>set reports. \<exists>j<length ps. \<exists>u r. l = fst (ps ! j) u r"
      "run_tests (map (\<lambda>(report, rq). perform report rq) ps) srv ?st
         = (None, ?st\<lparr>requests := requests ?st @ map snd ps, out := out ?st @ reports\<rparr>)"
    by blast
  have m: "\<forall>l\<in>set (report (url rq) r # reports). \<exists>j<length (p # ps). \<exists>u r. l = fst ((p # ps) ! j) u r"
  proof
    fix l assume "l \<in> set (report (url rq) r # reports)"
    then consider "l = report (url rq) r" | "l \<in> set reports" by auto
    then show "\<exists>j<length (p # ps). \<exists>u r. l = fst ((p # ps) ! j) u r"
    proof cases
      case 1
      then have "l = fst ((p # ps) ! 0) (url rq) r" using p by simp
      then show ?thesis by blast
    next
      case 2
      with reports(2) obtain j u r' where "j < length ps" "l = fst (ps ! j) u r'" by blast
      then have "Suc j < length (p # ps)" "l = fst ((p # ps) ! Suc j) u r'" by simp_all
      then show ?thesis by blast
    qed
  qed
  have "run_tests (map (\<lambda>(report, rq). perform report rq) (p # ps)) srv st
        = (None, st\<lparr>requests := requests st @ map snd (p # ps),
                       out := out st @ (report (url rq) r # reports)\<rparr>)"
    using reports(3) r p by (simp add: run_step del: run_tests.simps)
  with reports(1) m show ?case
    by (intro exI [of _ "report (url rq) r # reports"]) simp
qed

lemma run_fails:
  "i < length ps \<Longrightarrow>
   (\<forall>j<i. \<exists>r. srv (length (requests st) + j) (snd (ps ! j)) = Inr r) \<Longrightarrow>
   srv (length (requests st) + i) (snd (ps ! i)) = Inl e \<Longrightarrow>
     \<exists>reports. length reports = i
       \<and> (\<forall>l\<in>set reports. \<exists>j<length ps. \<exists>u r. l = fst (ps ! j) u r)
       \<and> run_tests (map (\<lambda>(report, rq). perform report rq) ps) srv st
           = (Some e, st\<lparr>requests := requests st @ take (Suc i) (map snd ps),
                            out := out st @ reports\<rparr>)"
proof (induction ps arbitrary: st i)
  case Nil
  then show ?case by simp
next
  case (Cons p ps)
  obtain report rq where p: "p = (report, rq)" by (cases p)
  show ?case
  proof (cases i)
    case 0
    with Cons.prems p have "srv (length (requests st)) rq = Inl e" by simp
    then have "run_tests (map (\<lambda>(report, rq). perform report rq) (p # ps)) srv st
          = (Some e, st\<lparr>requests := requests st @ take (Suc 0) (map snd (p # ps)),
                           out := out st @ []\<rparr>)"
      using p by (simp add: run_step del: run_tests.simps)
    with 0 show ?thesis by (intro exI [of _ "[]"]) simp
  next
    case (Suc k)
    from Cons.prems Suc obtain r where r: "srv (length (requests st)) rq = Inr r"
      using p by fastforce
    let ?st = "st\<lparr>requests := requests st @ [rq], out := out st @ [report (url rq) r]\<rparr>"
    have k: "k < length ps" using Cons.prems(1) Suc by simp
    have a: "\<forall>j<k. \<exists>r. srv (length (requests ?st) + j) (snd (ps ! j)) = Inr r"
    proof (intro allI impI)
      fix j assume "j < k"
      then have "Suc j < i" using Suc by simp
      with Cons.prems(2)
      have "\<exists>r. srv (length (requests st) + Suc j) (snd ((p # ps) ! Suc j)) = Inr r" by blast
      then show "\<exists>r. srv (length (requests ?st) + j) (snd (ps ! j)) = Inr r" by simp
    qed
    have f: "srv (length (requests ?st) + k) (snd (ps ! k)) = Inl e"
      using Cons.prems(3) Suc by simp
    from Cons.IH [OF k a f] obtain reports where
      reports: "length reports = k"
        "\<forall>l\<in>set reports. \<exists>j<length ps. \<exists>u r. l = fst (ps ! j) u r"
        "run_tests (map (\<lambda>(report, rq). perform report rq) ps) srv ?st
           = (Some e, ?st\<lparr>requests := requests ?st @ take (Suc k) (map snd ps),
                             out := out ?st @ reports\<rparr>)"
      by blast
    have m: "\<forall>l\<in>set (report (url rq) r # reports).
               \<exists>j<length (p # ps). \<exists>u r. l = fst ((p # ps) ! j) u r"
    proof
      fix l assume "l \<in> set (report (url rq) r # reports)"
      then consider "l = report (url rq) r" | "l \<in> set reports" by auto
      then show "\<exists>j<length (p # ps). \<exists>u r. l = fst ((p # ps) ! j) u r"
      proof cases
        case 1
        then have "l = fst ((p # ps) ! 0) (url rq) r" using p by simp
        then show ?thesis by blast
      next
        case 2
        with reports(2) obtain j u r' where "j < length ps" "l = fst (ps ! j) u r'" by blast
        then have "Suc j < length (p # ps)" "l = fst ((p # ps) ! Suc j) u r'" by simp_all
        then show ?thesis by blast
      qed
    qed
    have "run_tests (map (\<lambda>(report, rq). perform report rq) (p # ps)) srv st
          = (Some e, st\<lparr>requests := requests st @ take (Suc i) (map snd (p # ps)),
                           out := out st @ (report (url rq) r # reports)\<rparr>)"
      using reports(3) r p Suc by (simp add: run_step del: run_tests.simps)
    with reports(1) m Suc show ?thesis
      by (intro exI [of _ "report (url rq) r # reports"]) simp
  qed
qed

lemma six_lengths: "length six_reports = 6" "length six_requests = 6"
  by (simp_all add: six_reports_def six_requests_def)

lemma six_zip:
  "length (zip six_reports six_requests) = 6"
  "j < 6 \<Longrightarrow> snd (zip six_reports six_requests ! j) = six_requests ! j"
  "map snd (zip six_reports six_requests) = six_requests"
  by (simp_all add: six_lengths)

lemma six_report_lines:
  assumes "j < length (zip six_reports six_requests)"
  shows "fst (zip six_reports six_requests ! j) u r \<notin> {Header, Config, Completed, CannotConnect, OtherError}"
proof -
  from assms have "j < 6" by (simp add: six_zip six_lengths)
  then have "j \<in> {0, 1, 2, 3, 4, 5}" by auto
  then show ?thesis
    by (auto simp: six_reports_def six_requests_def print_test_def print_redirect_def)
qed

lemma main_tests:
  "main srv =
     (case run_tests (map (\<lambda>(report, rq). perform report rq) (zip six_reports six_requests))
             srv \<lparr>requests = [], out = [Header, Config]\<rparr> of
        (None, st) \<Rightarrow> st\<lparr>out := out st @ [Completed]\<rparr>
      | (Some ConnectionError, st) \<Rightarrow> st\<lparr>out := out st @ [CannotConnect]\<rparr>
      | (Some OtherException, st) \<Rightarrow> st\<lparr>out := out st @ [OtherError]\<rparr>)"
  by (simp only: main_def six_tests)

lemma main_full:
  assumes "\<forall>j<6. \<exists>r. srv j (six_requests ! j) = Inr r"
  shows "\<exists>reports. length reports = 6
           \<and> main srv = \<lparr>requests = six_requests, out = [Header, Config] @ reports @ [Completed]\<rparr>"
proof -
  let ?st = "\<lparr>requests = [], out = [Header, Config]\<rparr>"
  have "\<forall>j<length (zip six_reports six_requests).
          \<exists>r. srv (length (requests ?st) + j) (snd (zip six_reports six_requests ! j)) = Inr r"
    using assms by (simp add: six_zip six_lengths)
  from run_all [OF this] obtain reports where
    r: "length reports = 6"
      "run_tests (map (\<lambda>(report, rq). perform report rq) (zip six_reports six_requests)) srv ?st
         = (None, ?st\<lparr>requests := requests ?st @ six_requests, out := out ?st @ reports\<rparr>)"
    by (auto simp: six_zip six_lengths)
  have "main srv = \<lparr>requests = six_requests, out = [Header, Config] @ reports @ [Completed]\<rparr>"
    by (simp add: main_tests r(2))
  with r(1) show ?thesis by blast
qed

lemma main_fails:
  assumes "i < 6" "\<forall>j<i. \<exists>r. srv j (six_requests ! j) = Inr r"
    "srv i (six_requests ! i) = Inl e"
  shows "\<exists>reports. length reports = i
           \<and> set reports \<inter> {Header, Config, Completed, CannotConnect, OtherError} = {}
           \<and> main srv = \<lparr>requests = take (Suc i) six_requests,
                           out = [Header, Config] @ reports
                                 @ [case e of ConnectionError \<Rightarrow> CannotConnect
                                    | OtherException \<Rightarrow> OtherError]\<rparr>"
proof -
  let ?st = "\<lparr>requests = [], out = [Header, Config]\<rparr>"
  let ?ps = "zip six_reports six_requests"
  have i: "i < length ?ps" using assms(1) by (simp add: six_zip six_lengths)
  have a: "\<forall>j<i. \<exists>r. srv (length (requests ?st) + j) (snd (?ps ! j)) = Inr r"
    using assms(1,2) by (simp add: six_zip six_lengths)
  have f: "srv (length (requests ?st) + i) (snd (?ps ! i)) = Inl e"
    using assms(1,3) by (simp add: six_zip six_lengths)
  from run_fails [OF i a f] obtain reports where
    r: "length reports = i"
      "\<forall>l\<in>set reports. \<exists>j<length ?ps. \<exists>u r. l = fst (?ps ! j) u r"
      "run_tests (map (\<lambda>(report, rq). perform report rq) ?ps) srv ?st
         = (Some e, ?st\<lparr>requests := requests ?st @ take (Suc i) (map snd ?ps),
                          out := out ?st @ reports\<rparr>)"
    by blast
  have d: "set reports \<inter> {Header, Config, Completed, CannotConnect, OtherError} = {}"
  proof -
    have "l \<notin> {Header, Config, Completed, CannotConnect, OtherError}" if "l \<in> set reports" for l
    proof -
      from r(2) that obtain j u r' where "j < length ?ps" "l = fst (?ps ! j) u r'" by blast
      then show ?thesis using six_report_lines [of j u r'] by simp
    qed
    then show ?thesis by blast
  qed
  have "main srv = \<lparr>requests = take (Suc i) six_requests,
                     out = [Header, Config] @ reports
                           @ [case e of ConnectionError \<Rightarrow> CannotConnect
                              | OtherException \<Rightarrow> OtherError]\<rparr>"
    by (cases e) (simp_all add: main_tests r(3) six_zip six_lengths)
  with r(1) d show ?thesis by blast
qed

lemma six_requests_explicit:
  "six_requests =
       [\<lparr>url = ascii ''http://localhost:8080/alipay/link?amount=1.23&remark=%E6%B5%8B%E8%AF%95%E8%AE%A2%E5%8D%95'',
         allow_redirects = True\<rparr>,
        \<lparr>url = ascii ''http://localhost:8080/alipay/link?qr_code_id=fkx12345678901234&amount=1.23&remark=%E6%B5%8B%E8%AF%95%E8%AE%A2%E5%8D%95'',
         allow_redirects = True\<rparr>,
        \<lparr>url = ascii ''http://localhost:8080/alipay/link?qr_code_id=fkx12345678901234'',
         allow_redirects = True\<rparr>,
        \<lparr>url = ascii ''http://localhost:8080/alipay/link?amount=1.23'',
         allow_redirects = True\<rparr>,
        \<lparr>url = ascii ''http://localhost:8080/alipay/link?qr_code_id=fkx12345678901234&amount=invalid'',
         allow_redirects = True\<rparr>,
        \<lparr>url = ascii ''http://localhost:8080/alipay/pay?qr_code_id=fkx12345678901234&amount=1.23&remark=%E6%B5%8B%E8%AF%95%E8%AE%A2%E5%8D%95'',
         allow_redirects = False\<rparr>]"
  by (simp add: six_requests_def link_request_def ascii_def)

text \<open>
  C9. In a run in which no request raises, the script makes exactly six requests, in
  this order: \<open>/alipay/link\<close> with \<open>amount, remark\<close>; with \<open>qr_code_id, amount, remark\<close>;
  with \<open>qr_code_id\<close>; with \<open>amount\<close>; with \<open>qr_code_id\<close> and \<open>amount=invalid\<close>; and
  \<open>/alipay/pay\<close> with \<open>qr_code_id, amount, remark\<close>, the last one without following
  redirects; each query string is the \<open>urlencode\<close> of those parameters. The run ends
  with the closing banner, after the six reports.
\<close>

theorem full_run_six_requests:
  "(\<forall>j<6. \<exists>r. srv j (six_requests ! j) = Inr r) \<Longrightarrow>
     requests (main srv) =
       [\<lparr>url = ascii ''http://localhost:8080/alipay/link?amount=1.23&remark=%E6%B5%8B%E8%AF%95%E8%AE%A2%E5%8D%95'',
         allow_redirects = True\<rparr>,
        \<lparr>url = ascii ''http://localhost:8080/alipay/link?qr_code_id=fkx12345678901234&amount=1.23&remark=%E6%B5%8B%E8%AF%95%E8%AE%A2%E5%8D%95'',
         allow_redirects = True\<rparr>,
        \<lparr>url = ascii ''http://localhost:8080/alipay/link?qr_code_id=fkx12345678901234'',
         allow_redirects = True\<rparr>,
        \<lparr>url = ascii ''http://localhost:8080/alipay/link?amount=1.23'',
         allow_redirects = True\<rparr>,
        \<lparr>url = ascii ''http://localhost:8080/alipay/link?qr_code_id=fkx12345678901234&amount=invalid'',
         allow_redirects = True\<rparr>,
        \<lparr>url = ascii ''http://localhost:8080/alipay/pay?qr_code_id=fkx12345678901234&amount=1.23&remark=%E6%B5%8B%E8%AF%95%E8%AE%A2%E5%8D%95'',
         allow_redirects = False\<rparr>]
     \<and> requests (main srv) = six_requests
     \<and> length (requests (main srv)) = 6
     \<and> length (out (main srv)) = 9
     \<and> last (out (main srv)) = Completed
     \<and> urlencode [(ascii ''amount'', AMOUNT), (ascii ''remark'', REMARK)]
         = Inr (ascii ''amount=1.23&remark=%E6%B5%8B%E8%AF%95%E8%AE%A2%E5%8D%95'')
     \<and> urlencode [(ascii ''qr_code_id'', QR_CODE_ID), (ascii ''amount'', AMOUNT),
                    (ascii ''remark'', REMARK)]
         = Inr (ascii ''qr_code_id=fkx12345678901234&amount=1.23&remark=%E6%B5%8B%E8%AF%95%E8%AE%A2%E5%8D%95'')
     \<and> urlencode [(ascii ''qr_code_id'', QR_CODE_ID)] = Inr (ascii ''qr_code_id=fkx12345678901234'')
     \<and> urlencode [(ascii ''amount'', AMOUNT)] = Inr (ascii ''amount=1.23'')
     \<and> urlencode [(ascii ''qr_code_id'', QR_CODE_ID), (ascii ''amount'', PStr (ascii ''invalid''))]
         = Inr (ascii ''qr_code_id=fkx12345678901234&amount=invalid'')"
proof -
  assume "\<forall>j<6. \<exists>r. srv j (six_requests ! j) = Inr r"
  from main_full [of srv, OF this] obtain reports where
    r: "length reports = 6"
      "main srv = \<lparr>requests = six_requests, out = [Header, Config] @ reports @ [Completed]\<rparr>"
    by blast
  have "requests (main srv) = six_requests" "length (requests (main srv)) = 6"
    "length (out (main srv)) = 9" "last (out (main srv)) = Completed"
    using r by (simp_all add: six_lengths)
  then show ?thesis
    by (simp add: deeplink_queries) (simp only: six_requests_explicit)
qed

theorem full_run_six_requests_witness:
  "answering 0 (six_requests ! 0) = Inr ok_response
   \<and> answering 1 (six_requests ! 1) = Inr ok_response
   \<and> answering 2 (six_requests ! 2) = Inr ok_response
   \<and> answering 3 (six_requests ! 3) = Inr ok_response
   \<and> answering 4 (six_requests ! 4) = Inr ok_response
   \<and> answering 5 (six_requests ! 5) = Inr ok_response
   \<and> requests (main answering) = six_requests
   \<and> length (requests (main answering)) = 6
   \<and> length (out (main answering)) = 9
   \<and> last (out (main answering)) = Completed"
proof -
  have h: "\<forall>j<6. \<exists>r. answering j (six_requests ! j) = Inr r"
    by (simp add: answering_def)
  note t = full_run_six_requests [of answering, OF h]
  from t have "requests (main answering) = six_requests" by blast
  moreover from t have "length (requests (main answering)) = 6" by blast
  moreover from t have "length (out (main answering)) = 9" by blast
  moreover from t have "last (out (main answering)) = Completed" by blast
  ultimately show ?thesis by (simp add: answering_def)
qed

text \<open>
  C8 as stated fails: when the first connection is refused, by a server that would
  have answered every later request, the script makes that one request, prints the
  connection message and runs none of the five scenarios that remain.
\<close>

theorem connection_failure_ends_run:
  "requests (main refusing_first) = [six_requests ! 0]
   \<and> out (main refusing_first) = [Header, Config, CannotConnect]
   \<and> length (requests (main refusing_first)) \<noteq> 6
   \<and> refusing_first 1 (six_requests ! 1) = Inr ok_response"
proof -
  have "refusing_first 0 (six_requests ! 0) = Inl ConnectionError"
    by (simp add: refusing_first_def)
  from main_fails [of 0 refusing_first ConnectionError, OF _ _ this]
  have "main refusing_first = \<lparr>requests = take (Suc 0) six_requests,
          out = [Header, Config, CannotConnect]\<rparr>"
    by simp
  then show ?thesis
    by (simp add: refusing_first_def) (simp add: six_requests_def)
qed

text \<open>
  C8, as amended. When \<open>requests.get\<close> raises in scenario \<open>i + 1\<close>, the scenarios before
  it having returned, the script has made the first \<open>i + 1\<close> of the six requests and
  makes no other; it has printed one report for each of the \<open>i\<close> scenarios that
  returned, and ends with one message, the connection message for a
  \<open>ConnectionError\<close> and the general one for any other exception, without the closing
  banner.
\<close>

theorem connection_failure_reported_once:
  "i < 6 \<Longrightarrow> (\<forall>j<i. \<exists>r. srv j (six_requests ! j) = Inr r) \<Longrightarrow>
   srv i (six_requests ! i) = Inl e \<Longrightarrow>
     requests (main srv) = take (Suc i) six_requests
     \<and> length (requests (main srv)) = Suc i
     \<and> (\<exists>reports. length reports = i
           \<and> set reports \<inter> {Header, Config, Completed, CannotConnect, OtherError} = {}
           \<and> out (main srv) = [Header, Config] @ reports
                 @ [case e of ConnectionError \<Rightarrow> CannotConnect | OtherException \<Rightarrow> OtherError])
     \<and> Completed \<notin> set (out (main srv))"
proof -
  assume a: "i < 6" "\<forall>j<i. \<exists>r. srv j (six_requests ! j) = Inr r"
    "srv i (six_requests ! i) = Inl e"
  from main_fails [of i srv e, OF a] obtain reports where
    r: "length reports = i"
      "set reports \<inter> {Header, Config, Completed, CannotConnect, OtherError} = {}"
      "main srv = \<lparr>requests = take (Suc i) six_requests,
                     out = [Header, Config] @ reports
                           @ [case e of ConnectionError \<Rightarrow> CannotConnect
                              | OtherException \<Rightarrow> OtherError]\<rparr>"
    by blast
  have 1: "requests (main srv) = take (Suc i) six_requests" using r(3) by simp
  have 2: "length (requests (main srv)) = Suc i" using 1 a(1) by (simp add: six_lengths)
  have 3: "out (main srv) = [Header, Config] @ reports
                 @ [case e of ConnectionError \<Rightarrow> CannotConnect | OtherException \<Rightarrow> OtherError]"
    using r(3) by simp
  have 4: "Completed \<notin> set (out (main srv))"
    using r(2) by (cases e) (auto simp: 3)
  from 1 2 3 4 r(1,2) show ?thesis by blast
qed

theorem connection_failure_reported_once_witness:
  "(2 :: nat) < 6
   \<and> refusing_third 0 (six_requests ! 0) = Inr ok_response
   \<and> refusing_third 1 (six_requests ! 1) = Inr ok_response
   \<and> refusing_third 2 (six_requests ! 2) = Inl ConnectionError
   \<and> requests (main refusing_third) = [six_requests ! 0, six_requests ! 1, six_requests ! 2]
   \<and> length (out (main refusing_third)) = 5
   \<and> last (out (main refusing_third)) = CannotConnect
   \<and> Completed \<notin> set (out (main refusing_third))"
proof -
  have h1: "(2 :: nat) < 6" by simp
  have h2: "\<forall>j<2. \<exists>r. refusing_third j (six_requests ! j) = Inr r"
    by (simp add: refusing_third_def)
  have h3: "refusing_third 2 (six_requests ! 2) = Inl ConnectionError"
    by (simp add: refusing_third_def)
  note t = connection_failure_reported_once [of 2 refusing_third ConnectionError, OF h1 h2 h3]
  from t have a: "requests (main refusing_third) = take (Suc 2) six_requests" by blast
  from t obtain reports where b: "length reports = 2"
    "out (main refusing_third) = [Header, Config] @ reports @ [CannotConnect]"
    by auto
  from t have c: "Completed \<notin> set (out (main refusing_third))" by blast
  have "take (Suc 2) six_requests = [six_requests ! 0, six_requests ! 1, six_requests ! 2]"
    by (simp add: six_requests_def)
  with a b c h1 h3 show ?thesis by (simp add: refusing_third_def)
qed

section \<open>How the amount is serialized\<close>












section \<open>Decoding what was encoded\<close>

lemma recombine: "q = x * 64 + y \<Longrightarrow> c = q * 64 + z \<Longrightarrow> x * 4096 + y * 64 + z = (c :: nat)"
  by simp

lemma split3: "(c::nat) div 4096 * 4096 + c div 64 mod 64 * 64 + c mod 64 = c"
proof -
  have a: "c = c div 64 * 64 + c mod 64" by simp
  have "c div 64 = c div 64 div 64 * 64 + c div 64 mod 64" by simp
  moreover have "c div 64 div 64 = c div 4096" by (simp add: div_mult2_eq)
  ultimately have b: "c div 64 = c div 4096 * 64 + c div 64 mod 64" by simp
  from b a show ?thesis by (rule recombine)
qed

lemma recombine4:
  "p = w * 64 + x \<Longrightarrow> q = p * 64 + y \<Longrightarrow> c = q * 64 + z \<Longrightarrow>
     w * 262144 + x * 4096 + y * 64 + z = (c :: nat)"
  by simp

lemma split4:
  "(c::nat) div 262144 * 262144 + c div 4096 mod 64 * 4096 + c div 64 mod 64 * 64 + c mod 64 = c"
proof -
  have a: "c = c div 64 * 64 + c mod 64" by simp
  have "c div 64 = c div 64 div 64 * 64 + c div 64 mod 64" by simp
  moreover have e: "c div 64 div 64 = c div 4096" by (simp add: div_mult2_eq)
  ultimately have b: "c div 64 = c div 4096 * 64 + c div 64 mod 64" by simp
  have "c div 4096 = c div 4096 div 64 * 64 + c div 4096 mod 64" by simp
  moreover have "c div 4096 div 64 = c div 262144" by (simp add: div_mult2_eq)
  ultimately have d: "c div 4096 = c div 262144 * 64 + c div 4096 mod 64" by simp
  from d b a show ?thesis by (rule recombine4)
qed

lemma utf8_decode_1:
  assumes "unat b0 = c" "c < 128"
  shows "utf8_decode ([b0] @ rest) = map_option ((#) c) (utf8_decode rest)"
  using assms by simp

lemma utf8_decode_2:
  assumes "unat b0 = 192 + c div 64" "unat b1 = 128 + c mod 64" "128 \<le> c" "c < 2048"
  shows "utf8_decode ([b0, b1] @ rest) = map_option ((#) c) (utf8_decode rest)"
proof -
  from assms(3,4) have "2 \<le> c div 64" "c div 64 < 32" by simp_all
  moreover have "c mod 64 < 64" by simp
  moreover have "c div 64 * 64 + c mod 64 = c" by simp
  ultimately show ?thesis using assms(1,2) by (simp add: is_cont_def)
qed

lemma utf8_decode_3:
  assumes "unat b0 = 224 + c div 4096" "unat b1 = 128 + c div 64 mod 64"
    "unat b2 = 128 + c mod 64" "2048 \<le> c" "c < 65536" "scalar c"
  shows "utf8_decode ([b0, b1, b2] @ rest) = map_option ((#) c) (utf8_decode rest)"
proof -
  from assms(5) have h: "c div 4096 < 16" by simp
  have m: "c mod 64 < 64" "c div 64 mod 64 < 64" by simp_all
  have v: "(unat b0 - 224) * 4096 + (unat b1 - 128) * 64 + (unat b2 - 128) = c"
    using split3 [of c] by (simp add: assms(1,2,3))
  have c1: "is_cont b1" "is_cont b2" using m by (simp_all add: is_cont_def assms(2,3))
  have r: "\<not> unat b0 < 128" "\<not> (194 \<le> unat b0 \<and> unat b0 < 224)"
    "224 \<le> unat b0 \<and> unat b0 < 240"
    using h by (simp_all add: assms(1))
  show ?thesis
    by (simp only: append_Cons append_Nil utf8_decode.simps r v c1 assms(4,6) if_True if_False
        list.case simp_thms)
qed

lemma utf8_decode_4:
  assumes "unat b0 = 240 + c div 262144" "unat b1 = 128 + c div 4096 mod 64"
    "unat b2 = 128 + c div 64 mod 64" "unat b3 = 128 + c mod 64" "65536 \<le> c" "c < 1114112"
  shows "utf8_decode ([b0, b1, b2, b3] @ rest) = map_option ((#) c) (utf8_decode rest)"
proof -
  from assms(6) have h: "c div 262144 < 5" by simp
  have m: "c mod 64 < 64" "c div 64 mod 64 < 64" "c div 4096 mod 64 < 64" by simp_all
  have v: "(unat b0 - 240) * 262144 + (unat b1 - 128) * 4096 + (unat b2 - 128) * 64
           + (unat b3 - 128) = c"
    using split4 [of c] by (simp add: assms(1,2,3,4))
  have c1: "is_cont b1" "is_cont b2" "is_cont b3"
    using m by (simp_all add: is_cont_def assms(2,3,4))
  have r: "\<not> unat b0 < 128" "\<not> (194 \<le> unat b0 \<and> unat b0 < 224)"
    "\<not> (224 \<le> unat b0 \<and> unat b0 < 240)" "240 \<le> unat b0 \<and> unat b0 < 245"
    using h by (simp_all add: assms(1))
  show ?thesis
    by (simp only: append_Cons append_Nil utf8_decode.simps r v c1 assms(5,6) if_True if_False
        list.case simp_thms)
qed

section \<open>The concrete scenario, evaluated\<close>

lemma example_encode: "utf8_encode (example_base @ example_K) = Inr example_bytes"
  by (simp add: example_base_def example_K_def example_bytes_def ascii_def utf8_char_def)

lemma example_digest:
  "hexdigest (md5_digest example_bytes) = ascii ''6faf6a4eba5ce68e8aca701a94d12690''"
  by code_simp

lemma example_md5:
  "md5 (example_base @ example_K) = Inr (ascii ''6faf6a4eba5ce68e8aca701a94d12690'')"
  by (simp add: md5_def example_encode example_digest)

text \<open>
  C1. For the parameters \<open>example_P\<close> and the secret \<open>example_K\<close>, both signers build
  the base string \<open>example_base\<close> (the entries in key order, joined by \<open>&\<close>), append
  the secret with nothing between, and return the MD5 hex digest of that text, which is
  the 32-character lowercase value \<open>6faf6a4eba5ce68e8aca701a94d12690\<close>.
\<close>

theorem example_signature:
  "sign_str example_P = Inr example_base
   \<and> sign_str_v1 example_P = example_base
   \<and> generate_sign example_P example_K = md5 (example_base @ example_K)
   \<and> generate_sign_v1 example_P example_K = md5 (example_base @ example_K)
   \<and> md5 (example_base @ example_K) = Inr (ascii ''6faf6a4eba5ce68e8aca701a94d12690'')
   \<and> length (ascii ''6faf6a4eba5ce68e8aca701a94d12690'') = 32"
  by (simp add: generate_sign_def generate_sign_v1_def example_sign_str example_sign_str_v1
      example_md5 ascii_def)

lemma example_generate_sign_v2:
  "generate_sign (params_before_sign 1700000000 (PStr (ascii ''1001003549245339'')) Map.empty)
     example_K = Inr (ascii ''6faf6a4eba5ce68e8aca701a94d12690'')"
  by (simp add: example_params_before_sign generate_sign_def example_sign_str_v2 example_md5)

lemma example_generate_sign_v1:
  "generate_sign_v1 (params_v1 1700000000 None None) KEY
     = Inr (ascii ''6faf6a4eba5ce68e8aca701a94d12690'')"
  using example_md5
  by (simp add: generate_sign_v1_def example_params_v1 example_sign_str_v1 KEY_def example_K_def)

section \<open>The signer of \<^verbatim>\<open>generate_payment_url.py\<close> on reserved and empty entries\<close>

lemma example_with_sign_type:
  "dict_set example_P (ascii ''sign_type'') (PStr (ascii ''MD5''))
   = example_P @ [(ascii ''sign_type'', PStr (ascii ''MD5''))]"
  by (rule dict_set_fresh) (simp add: example_P_def ascii_def)

lemma example_with_sitename:
  "dict_set example_P (ascii ''sitename'') (PStr [])
   = example_P @ [(ascii ''sitename'', PStr [])]"
  by (rule dict_set_fresh) (simp add: example_P_def ascii_def)

lemma example_sign_str_v1_sign_type:
  "sign_str_v1 (example_P @ [(ascii ''sign_type'', PStr (ascii ''MD5''))]) = example_base_sign_type"
  by (simp add: sign_str_v1_def example_P_def example_base_sign_type_def ascii_def)

lemma example_sign_str_v1_sitename:
  "sign_str_v1 (example_P @ [(ascii ''sitename'', PStr [])]) = example_base_sitename"
  by (simp add: sign_str_v1_def example_P_def example_base_sitename_def ascii_def)

lemma example_encode_sign_type:
  "utf8_encode (example_base_sign_type @ example_K) = Inr example_bytes_sign_type"
  by (simp add: example_base_sign_type_def example_K_def example_bytes_sign_type_def ascii_def
      utf8_char_def)

lemma example_encode_sitename:
  "utf8_encode (example_base_sitename @ example_K) = Inr example_bytes_sitename"
  by (simp add: example_base_sitename_def example_K_def example_bytes_sitename_def ascii_def
      utf8_char_def)

lemma example_digest_sign_type:
  "hexdigest (md5_digest example_bytes_sign_type) = ascii ''426b3922d83df796563d0eb478a968cd''"
  by code_simp

lemma example_digest_sitename:
  "hexdigest (md5_digest example_bytes_sitename) = ascii ''57fb6fbd8a96ed7756d7669a35a6aec1''"
  by code_simp

lemma example_generate_sign_v1_plain:
  "generate_sign_v1 example_P example_K = Inr (ascii ''6faf6a4eba5ce68e8aca701a94d12690'')"
  by (simp add: generate_sign_v1_def example_sign_str_v1 example_md5)

text \<open>
  C2 as stated fails for the signer of \<^verbatim>\<open>generate_payment_url.py\<close>, which has no
  filter: handed the parameters of the scenario with \<open>sign_type = MD5\<close> added, it signs
  \<open>...&sign_type=MD5&type=alipay\<close> and returns another signature than without the entry.
\<close>

theorem v1_signs_reserved_key:
  "sign_str_v1 (dict_set example_P (ascii ''sign_type'') (PStr (ascii ''MD5'')))
     = example_base_sign_type
   \<and> generate_sign_v1 (dict_set example_P (ascii ''sign_type'') (PStr (ascii ''MD5''))) example_K
     = Inr (ascii ''426b3922d83df796563d0eb478a968cd'')
   \<and> generate_sign_v1 example_P example_K = Inr (ascii ''6faf6a4eba5ce68e8aca701a94d12690'')
   \<and> generate_sign_v1 (dict_set example_P (ascii ''sign_type'') (PStr (ascii ''MD5''))) example_K
     \<noteq> generate_sign_v1 example_P example_K"
proof -
  have a: "generate_sign_v1 (example_P @ [(ascii ''sign_type'', PStr (ascii ''MD5''))]) example_K
     = Inr (ascii ''426b3922d83df796563d0eb478a968cd'')"
    by (simp add: generate_sign_v1_def example_sign_str_v1_sign_type md5_def
        example_encode_sign_type example_digest_sign_type)
  have "ascii ''426b3922d83df796563d0eb478a968cd'' \<noteq> ascii ''6faf6a4eba5ce68e8aca701a94d12690''"
    by (simp add: ascii_def)
  with a example_generate_sign_v1_plain show ?thesis
    by (simp add: example_with_sign_type example_sign_str_v1_sign_type)
qed

text \<open>
  C3. The same signer keeps an entry whose value is the empty string: with
  \<open>sitename = ''\<close> added it signs \<open>...&sitename=&type=alipay\<close> and returns another
  signature than without the entry, where the other signer returns the same one.
\<close>

theorem v1_signs_empty_value:
  "ascii ''sitename'' \<notin> fst ` set example_P
   \<and> sign_str_v1 (dict_set example_P (ascii ''sitename'') (PStr [])) = example_base_sitename
   \<and> generate_sign_v1 (dict_set example_P (ascii ''sitename'') (PStr [])) example_K
     = Inr (ascii ''57fb6fbd8a96ed7756d7669a35a6aec1'')
   \<and> generate_sign_v1 example_P example_K = Inr (ascii ''6faf6a4eba5ce68e8aca701a94d12690'')
   \<and> generate_sign (dict_set example_P (ascii ''sitename'') (PStr [])) example_K
     = Inr (ascii ''6faf6a4eba5ce68e8aca701a94d12690'')"
proof -
  have fresh: "ascii ''sitename'' \<notin> fst ` set example_P"
    by (simp add: example_P_def ascii_def)
  have "generate_sign (dict_set example_P (ascii ''sitename'') (PStr [])) example_K
        = generate_sign example_P example_K"
    using fresh by (rule generate_sign_ignores_empty)
  moreover have "generate_sign example_P example_K = Inr (ascii ''6faf6a4eba5ce68e8aca701a94d12690'')"
    by (simp add: generate_sign_def example_sign_str example_md5)
  moreover have "generate_sign_v1 (example_P @ [(ascii ''sitename'', PStr [])]) example_K
     = Inr (ascii ''57fb6fbd8a96ed7756d7669a35a6aec1'')"
    by (simp add: generate_sign_v1_def example_sign_str_v1_sitename md5_def
        example_encode_sitename example_digest_sitename)
  ultimately show ?thesis
    using fresh example_generate_sign_v1_plain
    by (simp add: example_with_sitename example_sign_str_v1_sitename)
qed

section \<open>The builders, evaluated\<close>

lemma supplied_params_eq:
  "params_before_sign 1700000000 (PStr (ascii ''1001003549245339'')) supplied_kwargs
   = supplied_params"
  by (simp add: params_before_sign_eq default_params_def kwargs_get_def supplied_kwargs_def
      supplied_params_def digits10.simps ascii_def)

lemma supplied_params_v1_eq:
  "params_v1 1700000000 (Some (PStr (ascii ''5.00''))) (Some (PStr (ascii ''VIP'')))
   = supplied_params_v1"
  by (simp add: params_v1_def supplied_params_v1_def PID_def digits10.simps ascii_def)

lemma supplied_sign_str: "sign_str supplied_params = Inr supplied_base"
  by (simp add: sign_str_def sorted_keys_def filtered_def reserved_def dict_get_def
      supplied_params_def supplied_base_def ascii_def)

lemma supplied_sign_str_v1: "sign_str_v1 supplied_params_v1 = supplied_base_v1"
  by (simp add: sign_str_v1_def supplied_params_v1_def supplied_base_v1_def ascii_def)

lemma supplied_encode: "utf8_encode (supplied_base @ example_K) = Inr supplied_bytes"
  by (simp add: supplied_base_def example_K_def supplied_bytes_def ascii_def utf8_char_def)

lemma supplied_encode_v1: "utf8_encode (supplied_base_v1 @ example_K) = Inr supplied_bytes_v1"
  by (simp add: supplied_base_v1_def example_K_def supplied_bytes_v1_def ascii_def utf8_char_def)

lemma supplied_digest:
  "hexdigest (md5_digest supplied_bytes) = ascii ''cf75dec65cd346ed032184ae835a6ca4''"
  by code_simp

lemma supplied_digest_v1:
  "hexdigest (md5_digest supplied_bytes_v1) = ascii ''37b633a204f3849398647dd227f6f18d''"
  by code_simp

lemma supplied_generate_sign:
  "generate_sign supplied_params example_K = Inr (ascii ''cf75dec65cd346ed032184ae835a6ca4'')"
  by (simp add: generate_sign_def supplied_sign_str md5_def supplied_encode supplied_digest)

lemma supplied_generate_sign_v1:
  "generate_sign_v1 supplied_params_v1 KEY = Inr (ascii ''37b633a204f3849398647dd227f6f18d'')"
  using supplied_encode_v1 supplied_digest_v1
  by (simp add: generate_sign_v1_def supplied_sign_str_v1 md5_def KEY_def example_K_def)

lemma supplied_query:
  "query_of supplied_params
   = ascii ''pid=1001003549245339&type=wxpay&out_trade_no=TEST1700000000&notify_url=http%3A%2F%2Fexample.com%2Fnotify&return_url=http%3A%2F%2Fexample.com%2Freturn&name=VIP&money=5&sign_type=MD5&sitename=My+Shop''"
  by (simp add: query_of_def supplied_params_def qp_def utf8_def utf8_char_def qp_byte_def
      quote_byte_def always_safe_def hex_upper_def ascii_def)

lemma supplied_query_v1:
  "query_of supplied_params_v1
   = ascii ''pid=1001003549245339&type=alipay&out_trade_no=TEST1700000000&notify_url=http%3A%2F%2Fexample.com%2Fnotify&return_url=http%3A%2F%2Fexample.com%2Freturn&name=VIP&money=5.00''"
  by (simp add: query_of_def supplied_params_v1_def qp_def utf8_def utf8_char_def qp_byte_def
      quote_byte_def always_safe_def hex_upper_def ascii_def)

lemma supplied_valid:
  "valid_text (py_str (PStr (ascii ''1001003549245339'')))" "valid_kwargs supplied_kwargs"
  "valid_kwargs Map.empty"
  by (simp_all add: valid_kwargs_def order_fields_def supplied_kwargs_def valid_text_digits10
      ascii_def scalar_def)

text \<open>The builders at supplied fields, at their defaults, and at a lone surrogate.\<close>

theorem payment_url_shape_witness:
  "valid_text (py_str (PStr (ascii ''1001003549245339''))) \<and> valid_text example_K
   \<and> valid_kwargs supplied_kwargs
   \<and> generate_payment_url 1700000000 (ascii ''http://localhost:8080'')
        (PStr (ascii ''1001003549245339'')) example_K supplied_kwargs
      = Inr (ascii ''http://localhost:8080/submit?pid=1001003549245339&type=wxpay&out_trade_no=TEST1700000000&notify_url=http%3A%2F%2Fexample.com%2Fnotify&return_url=http%3A%2F%2Fexample.com%2Freturn&name=VIP&money=5&sign_type=MD5&sitename=My+Shop&sign=cf75dec65cd346ed032184ae835a6ca4'',
             supplied_params @ [(ascii ''sign'', PStr (ascii ''cf75dec65cd346ed032184ae835a6ca4''))])
   \<and> generate_payment_url_v1 1700000000 (Some (PStr (ascii ''5.00''))) (Some (PStr (ascii ''VIP'')))
      = Inr (ascii ''http://localhost:8080/submit?pid=1001003549245339&type=alipay&out_trade_no=TEST1700000000&notify_url=http%3A%2F%2Fexample.com%2Fnotify&return_url=http%3A%2F%2Fexample.com%2Freturn&name=VIP&money=5.00&sign=37b633a204f3849398647dd227f6f18d&sign_type=MD5'',
             supplied_params_v1 @ [(ascii ''sign'', PStr (ascii ''37b633a204f3849398647dd227f6f18d'')),
                                   (ascii ''sign_type'', PStr (ascii ''MD5''))])
   \<and> valid_kwargs Map.empty
   \<and> generate_payment_url 1700000000 (ascii ''http://localhost:8080'')
        (PStr (ascii ''1001003549245339'')) example_K Map.empty
      = Inr (ascii ''http://localhost:8080/submit?pid=1001003549245339&type=alipay&out_trade_no=TEST1700000000&notify_url=http%3A%2F%2Fexample.com%2Fnotify&return_url=http%3A%2F%2Fexample.com%2Freturn&name=%E6%B5%8B%E8%AF%95%E5%95%86%E5%93%81&money=0.01&sign_type=MD5&sign=6faf6a4eba5ce68e8aca701a94d12690'',
             example_P @ [(ascii ''sign_type'', PStr (ascii ''MD5'')),
                          (ascii ''sign'', PStr (ascii ''6faf6a4eba5ce68e8aca701a94d12690''))])
   \<and> generate_payment_url_v1 1700000000 None None
      = Inr (ascii ''http://localhost:8080/submit?pid=1001003549245339&type=alipay&out_trade_no=TEST1700000000&notify_url=http%3A%2F%2Fexample.com%2Fnotify&return_url=http%3A%2F%2Fexample.com%2Freturn&name=%E6%B5%8B%E8%AF%95%E5%95%86%E5%93%81&money=0.01&sign=6faf6a4eba5ce68e8aca701a94d12690&sign_type=MD5'',
             example_P @ [(ascii ''sign'', PStr (ascii ''6faf6a4eba5ce68e8aca701a94d12690'')),
                          (ascii ''sign_type'', PStr (ascii ''MD5''))])
   \<and> \<not> valid_kwargs [ascii ''name'' \<mapsto> PStr [55296]]
   \<and> generate_payment_url 1700000000 (ascii ''http://localhost:8080'')
        (PStr (ascii ''1001003549245339'')) example_K [ascii ''name'' \<mapsto> PStr [55296]]
      = Inl UnicodeEncodeError
   \<and> generate_payment_url_v1 1700000000 None (Some (PStr [55296])) = Inl UnicodeEncodeError"
proof -
  let ?B = "ascii ''http://localhost:8080''"
  let ?pid = "PStr (ascii ''1001003549245339'')"
  note s = payment_url_shape [of ?pid example_K supplied_kwargs 1700000000 ?B
      "Some (PStr (ascii ''5.00''))" "Some (PStr (ascii ''VIP''))"]
  note d = payment_url_shape [of ?pid example_K Map.empty 1700000000 ?B None None]
  note b = payment_url_shape [of ?pid example_K "[ascii ''name'' \<mapsto> PStr [55296]]" 1700000000 ?B
      None "Some (PStr [55296])"]
  have bad: "\<not> valid_kwargs [ascii ''name'' \<mapsto> PStr [55296]]"
    by (simp add: valid_kwargs_def order_fields_def scalar_def ascii_def)
  have s2: "generate_payment_url 1700000000 ?B ?pid example_K supplied_kwargs
      = Inr (?B @ ascii ''/submit?'' @ query_of supplied_params @ ascii ''&sign=''
               @ ascii ''cf75dec65cd346ed032184ae835a6ca4'',
             supplied_params @ [(ascii ''sign'', PStr (ascii ''cf75dec65cd346ed032184ae835a6ca4''))])"
    using s [THEN conjunct1, unfolded supplied_params_eq] supplied_valid example_valid
      supplied_generate_sign
    by auto
  have s1: "generate_payment_url_v1 1700000000 (Some (PStr (ascii ''5.00''))) (Some (PStr (ascii ''VIP'')))
      = Inr (?B @ ascii ''/submit?'' @ query_of supplied_params_v1 @ ascii ''&sign=''
               @ ascii ''37b633a204f3849398647dd227f6f18d'' @ ascii ''&sign_type=MD5'',
             supplied_params_v1 @ [(ascii ''sign'', PStr (ascii ''37b633a204f3849398647dd227f6f18d'')),
                                   (ascii ''sign_type'', PStr (ascii ''MD5''))])"
    using s [THEN conjunct2, THEN conjunct2, THEN conjunct2, THEN conjunct2, THEN conjunct2,
             THEN conjunct2, THEN conjunct2, THEN conjunct2, THEN conjunct2, THEN conjunct2,
             THEN conjunct2, THEN conjunct2, THEN conjunct2, THEN conjunct1,
             unfolded supplied_params_v1_eq]
      supplied_generate_sign_v1
    by auto
  have d2: "generate_payment_url 1700000000 ?B ?pid example_K Map.empty
      = Inr (?B @ ascii ''/submit?''
               @ query_of (example_P @ [(ascii ''sign_type'', PStr (ascii ''MD5''))])
               @ ascii ''&sign='' @ ascii ''6faf6a4eba5ce68e8aca701a94d12690'',
             (example_P @ [(ascii ''sign_type'', PStr (ascii ''MD5''))])
               @ [(ascii ''sign'', PStr (ascii ''6faf6a4eba5ce68e8aca701a94d12690''))])"
    using d [THEN conjunct1, unfolded example_params_before_sign] supplied_valid example_valid
      example_generate_sign_v2 [unfolded example_params_before_sign]
    by auto
  have d1: "generate_payment_url_v1 1700000000 None None
      = Inr (?B @ ascii ''/submit?'' @ query_of example_P @ ascii ''&sign=''
               @ ascii ''6faf6a4eba5ce68e8aca701a94d12690'' @ ascii ''&sign_type=MD5'',
             example_P @ [(ascii ''sign'', PStr (ascii ''6faf6a4eba5ce68e8aca701a94d12690'')),
                          (ascii ''sign_type'', PStr (ascii ''MD5''))])"
    using d [THEN conjunct2, THEN conjunct2, THEN conjunct2, THEN conjunct2, THEN conjunct2,
             THEN conjunct2, THEN conjunct2, THEN conjunct2, THEN conjunct2, THEN conjunct2,
             THEN conjunct2, THEN conjunct2, THEN conjunct2, THEN conjunct1,
             unfolded example_params_v1]
      example_generate_sign_v1 [unfolded example_params_v1]
    by auto
  have b2: "generate_payment_url 1700000000 ?B ?pid example_K [ascii ''name'' \<mapsto> PStr [55296]]
      = Inl UnicodeEncodeError"
    using b [THEN conjunct2, THEN conjunct1] bad by blast
  have b1: "generate_payment_url_v1 1700000000 None (Some (PStr [55296])) = Inl UnicodeEncodeError"
    using b [THEN conjunct2, THEN conjunct2, THEN conjunct2, THEN conjunct2, THEN conjunct2,
             THEN conjunct2, THEN conjunct2, THEN conjunct2, THEN conjunct2, THEN conjunct2,
             THEN conjunct2, THEN conjunct2, THEN conjunct2, THEN conjunct2, THEN conjunct1]
    by (simp add: scalar_def)
  show ?thesis
    unfolding s2 s1 d2 d1 b2 b1 supplied_query supplied_query_v1 example_query_v2 example_query_v1
    using supplied_valid example_valid bad
    by (simp add: ascii_def)
qed

end
